theory Spec2Isabelle
  imports Complex_Main "HOL-Library.AList"
begin

section \<open>The price-analysis report builder\<close>

text \<open>
  A shallow embedding of \<^verbatim>\<open>excel_summary_19.py\<close>: the grouping of the quote table
  by (code, Power Type), the markup preview \<^verbatim>\<open>generate_html_table\<close>, the workbook
  written by the "Generate Excel File" handler, and the PDF upload check.

  Modelling decisions, all stated here once:
  \<^item> A table (a pandas DataFrame) is the list of its rows in index order. A text cell is a
    \<^typ>\<open>string option\<close>: \<^term>\<open>None\<close> is a missing cell (None or NaN), which the
    code tests with \<^verbatim>\<open>notna\<close> and \<^verbatim>\<open>isna\<close>.
  \<^item> The price column is numeric; prices and the tax percentage are read as exact
    rationals, so binary rounding of Python floats (and the values NaN and infinity) is
    left out of the model.
  \<^item> A raised exception is a value \<^verbatim>\<open>Inl e\<close> of a sum type.
  \<^item> The worksheet is the sequence of cell writes the handler performs, in program order.
\<close>

subsection \<open>Rows and pandas comparisons\<close>

record row =
  row_type :: "string option"
  row_supplier :: "string option"
  row_brand :: "string option"
  row_code :: "string option"
  row_description :: "string option"
  row_power_type :: "string option"
  row_price :: rat

datatype error = IndexError | KeyError

text \<open>\<^verbatim>\<open>series == value\<close>, elementwise: a missing cell equals nothing, not even a
  missing value.\<close>

definition py_eq :: "string option \<Rightarrow> string option \<Rightarrow> bool" where
  "py_eq a b = (case a of None \<Rightarrow> False | Some x \<Rightarrow> (case b of None \<Rightarrow> False | Some y \<Rightarrow> x = y))"

text \<open>\<^verbatim>\<open>series != value\<close> is the elementwise negation.\<close>

definition py_ne :: "string option \<Rightarrow> string option \<Rightarrow> bool" where
  "py_ne a b = (\<not> py_eq a b)"

definition notna :: "string option \<Rightarrow> bool" where
  "notna a = (a \<noteq> None)"

definition isna :: "string option \<Rightarrow> bool" where
  "isna a = (a = None)"

definition isin :: "string option \<Rightarrow> string list \<Rightarrow> bool" where
  "isin a vs = (case a of None \<Rightarrow> False | Some x \<Rightarrow> x \<in> set vs)"

text \<open>\<^verbatim>\<open>DataFrame.drop_duplicates()\<close> and \<^verbatim>\<open>Series.unique()\<close>: every value
  once, at the place of its first occurrence; missing values count as one value.\<close>

fun drop_duplicates :: "'a list \<Rightarrow> 'a list" where
  "drop_duplicates [] = []"
| "drop_duplicates (x # xs) = x # drop_duplicates (filter (\<lambda>y. y \<noteq> x) xs)"

definition unique :: "'a list \<Rightarrow> 'a list" where
  "unique xs = drop_duplicates xs"

subsection \<open>Grouping (lines 167-187 and 297-313)\<close>

definition main_items :: "row list \<Rightarrow> row list" where
  "main_items df =
     filter (\<lambda>r. py_eq (row_type r) (Some ''item'') \<and>
                 notna (row_power_type r) \<and>
                 py_ne (row_power_type r) (Some '''')) df"

definition group_keys :: "row list \<Rightarrow> (string option \<times> string option) list" where
  "group_keys df = drop_duplicates (map (\<lambda>r. (row_code r, row_power_type r)) (main_items df))"

definition items_for_code :: "row list \<Rightarrow> string option \<Rightarrow> string option \<Rightarrow> row list" where
  "items_for_code df code power_type =
     filter (\<lambda>r. py_eq (row_code r) code \<and>
                 (py_eq (row_power_type r) power_type \<or>
                  isna (row_power_type r) \<or>
                  py_eq (row_power_type r) (Some '''')) \<and>
                 isin (row_type r) [''item'', ''subitem'']) df"

text \<open>\<^verbatim>\<open>items_for_code[items_for_code["type"] == "item"].iloc[0]["brand"]\<close>: the
  positional read raises IndexError on an empty selection.\<close>

definition group_brand :: "row list \<Rightarrow> error + string option" where
  "group_brand items =
     (case filter (\<lambda>r. py_eq (row_type r) (Some ''item'')) items of
        [] \<Rightarrow> Inl IndexError
      | r # _ \<Rightarrow> Inr (row_brand r))"

text \<open>The price of a (supplier, description) cell; the same expression stands at lines
  218-222, 234-238 and 352-356.\<close>

definition lookup_price :: "row list \<Rightarrow> string option \<Rightarrow> string option \<Rightarrow> rat" where
  "lookup_price items s desc =
     (case filter (\<lambda>r. py_eq (row_supplier r) s \<and> py_eq (row_description r) desc) items of
        [] \<Rightarrow> 0
      | r # _ \<Rightarrow> row_price r)"

subsection \<open>Text formatting\<close>

definition nl :: string where
  "nl = [CHR 0x0A]"

text \<open>An interpolated table cell: a missing value prints as \<^verbatim>\<open>None\<close>.\<close>

definition py_str :: "string option \<Rightarrow> string" where
  "py_str a = (case a of None \<Rightarrow> ''None'' | Some x \<Rightarrow> x)"

definition digit_char :: "nat \<Rightarrow> char" where
  "digit_char d = char_of (48 + d)"

fun nat_digits :: "nat \<Rightarrow> string" where
  "nat_digits n = (if n < 10 then [digit_char n] else nat_digits (n div 10) @ [digit_char (n mod 10)])"

declare nat_digits.simps [simp del]

text \<open>Thousands separators, on the digits in reverse.\<close>

fun commas_rev :: "string \<Rightarrow> string" where
  "commas_rev (a # b # c # d # ds) = a # b # c # CHR '','' # commas_rev (d # ds)"
| "commas_rev ds = ds"

definition add_commas :: "string \<Rightarrow> string" where
  "add_commas ds = rev (commas_rev (rev ds))"

text \<open>Rounding to the nearest integer, ties to even, as the \<^verbatim>\<open>f\<close> presentation
  type rounds.\<close>

definition round_half_even :: "rat \<Rightarrow> int" where
  "round_half_even y =
     (let q = \<lfloor>y\<rfloor>; r = y - of_int q
      in if r < 1 / 2 then q else if 1 / 2 < r then q + 1 else if even q then q else q + 1)"

definition cents_of :: "rat \<Rightarrow> nat" where
  "cents_of x = nat (round_half_even (\<bar>x\<bar> * 100))"

definition two_digits :: "nat \<Rightarrow> string" where
  "two_digits n = [digit_char (n div 10), digit_char (n mod 10)]"

text \<open>\<^verbatim>\<open>f"{x:.2f}"\<close> and \<^verbatim>\<open>f"{x:,.2f}"\<close>.\<close>

definition format_2f :: "rat \<Rightarrow> string" where
  "format_2f x =
     (let c = cents_of x
      in (if x < 0 then ''-'' else '''') @ nat_digits (c div 100) @ ''.'' @ two_digits (c mod 100))"

definition format_comma_2f :: "rat \<Rightarrow> string" where
  "format_comma_2f x =
     (let c = cents_of x
      in (if x < 0 then ''-'' else '''') @ add_commas (nat_digits (c div 100)) @ ''.'' @
         two_digits (c mod 100))"

text \<open>The number a two-decimal rendering of \<open>x\<close> denotes.\<close>

definition shown_2f :: "rat \<Rightarrow> rat" where
  "shown_2f x = (if x < 0 then - 1 else 1) * of_nat (cents_of x) / 100"

subsection \<open>The markup preview: \<^verbatim>\<open>generate_html_table\<close> (lines 131-262)\<close>

definition html_head :: string where
  "html_head = nl @ concat (map (\<lambda>l. l @ nl)
     [''    <div style=\"overflow-x:auto;\">'',
      ''    <style>'',
      ''        table {'',
      ''            border-collapse: collapse !important;'',
      ''            width: 100%;'',
      ''            margin-bottom: 40px;'',
      ''            font-family: Arial, sans-serif;'',
      ''            background-color: #ffffff;'',
      ''            color: #000000;'',
      ''            border: 1px solid #bfbfbf;'',
      ''        }'',
      '''',
      ''        th, td {'',
      ''            border: 1px solid #bfbfbf !important;'',
      ''            padding: 6px 8px;'',
      ''            vertical-align: middle;'',
      ''            text-align: left;'',
      ''            background-clip: padding-box;'',
      ''        }'',
      '''',
      ''        th {'',
      ''            background-color: #dae9f8;'',
      ''            font-weight: 600;'',
      ''        }'',
      '''',
      ''        .total-row td {'',
      ''            background-color: #fce4d6;'',
      ''            font-weight: bold;'',
      ''        }'',
      ''    </style>'']) @ ''    ''"

text \<open>\<^verbatim>\<open>totals[s] += price\<close> on the dictionary \<open>totals\<close>.\<close>

definition add_total :: "(string option \<times> rat) list \<Rightarrow> string option \<Rightarrow> rat \<Rightarrow>
    error + (string option \<times> rat) list" where
  "add_total totals s price =
     (case map_of totals s of
        None \<Rightarrow> Inl KeyError
      | Some v \<Rightarrow> Inr (AList.update s (v + price) totals))"

text \<open>The loop over the suppliers inside one item row (lines 217-224 and 233-240).\<close>

fun price_cells :: "row list \<Rightarrow> string option \<Rightarrow> string option list \<Rightarrow>
    (string option \<times> rat) list \<Rightarrow> string \<Rightarrow> error + ((string option \<times> rat) list \<times> string)" where
  "price_cells items desc [] totals html = Inr (totals, html)"
| "price_cells items desc (s # ss) totals html =
     (let price = lookup_price items s desc
      in case add_total totals s price of
           Inl e \<Rightarrow> Inl e
         | Inr totals' \<Rightarrow>
             price_cells items desc ss totals' (html @ ''<td>$'' @ format_comma_2f price @ ''</td>''))"

text \<open>The loop over \<^verbatim>\<open>descriptions[1:]\<close> (lines 229-242).\<close>

fun remaining_rows :: "row list \<Rightarrow> string option list \<Rightarrow> string option list \<Rightarrow>
    (string option \<times> rat) list \<Rightarrow> string \<Rightarrow> error + ((string option \<times> rat) list \<times> string)" where
  "remaining_rows items suppliers [] totals html = Inr (totals, html)"
| "remaining_rows items suppliers (desc # descs) totals html =
     (let html1 = html @ ''<tr>'';
          html2 = html1 @ ''<td>1</td><td>'' @ py_str desc @ ''</td>''
      in case price_cells items desc suppliers totals html2 of
           Inl e \<Rightarrow> Inl e
         | Inr (totals', html3) \<Rightarrow> remaining_rows items suppliers descs totals' (html3 @ ''</tr>''))"

text \<open>The loop of the total row (lines 254-256).\<close>

fun total_cells :: "rat \<Rightarrow> (string option \<times> rat) list \<Rightarrow> string option list \<Rightarrow> string \<Rightarrow>
    error + string" where
  "total_cells tax_rate totals [] html = Inr html"
| "total_cells tax_rate totals (s # ss) html =
     (case map_of totals s of
        None \<Rightarrow> Inl KeyError
      | Some v \<Rightarrow>
          (let total = v * (1 + tax_rate)
           in total_cells tax_rate totals ss (html @ ''<td>$'' @ format_comma_2f total @ ''</td>'')))"

text \<open>The text of lines 206-215, with the interpolated values.\<close>

definition first_row_head :: "nat \<Rightarrow> string option \<Rightarrow> string option \<Rightarrow> string option \<Rightarrow>
    string option \<Rightarrow> string" where
  "first_row_head body_rows brand code power_type first_desc =
     nl @ ''            <td rowspan=\"'' @ nat_digits body_rows @ ''\">'' @ nl @
     ''                <b>Brand</b><br>'' @ py_str brand @ ''<br><br>'' @ nl @
     ''                <b>Code</b><br>'' @ py_str code @ ''<br><br>'' @ nl @
     ''                <b>Power Type</b><br>'' @ py_str power_type @ nl @
     ''            </td>'' @ nl @
     ''            <td rowspan=\"'' @ nat_digits body_rows @ ''\"></td>'' @ nl @
     ''            <td>1</td>'' @ nl @
     ''            <td>'' @ py_str first_desc @ ''</td>'' @ nl @
     ''        ''"

text \<open>The item rows of one group (lines 200-242): the dictionary of subtotals and the
  markup after the last item row.\<close>

definition render_items :: "row list \<Rightarrow> string option list \<Rightarrow> string option list \<Rightarrow>
    string option \<Rightarrow> string option \<Rightarrow> string option \<Rightarrow> string \<Rightarrow>
    error + ((string option \<times> rat) list \<times> string)" where
  "render_items items suppliers descriptions brand code power_type html =
     (let body_rows = length descriptions + 2;
          totals = map (\<lambda>s. (s, 0)) suppliers
      in case descriptions of
           [] \<Rightarrow> Inl IndexError
         | first_desc # rest \<Rightarrow>
             (let html1 = html @ ''<tr>'';
                  html2 = html1 @ first_row_head body_rows brand code power_type first_desc
              in case price_cells items first_desc suppliers totals html2 of
                   Inl e \<Rightarrow> Inl e
                 | Inr (totals1, html3) \<Rightarrow>
                     remaining_rows items suppliers rest totals1 (html3 @ ''</tr>'')))"

text \<open>One pass of the loop over the groups (lines 175-259).\<close>

definition render_group :: "row list \<Rightarrow> rat \<Rightarrow> rat \<Rightarrow> string option \<Rightarrow> string option \<Rightarrow>
    string \<Rightarrow> error + string" where
  "render_group df tax_percent tax_rate code power_type html =
     (let items = items_for_code df code power_type;
          suppliers = unique (map row_supplier items)
      in case group_brand items of
           Inl e \<Rightarrow> Inl e
         | Inr brand \<Rightarrow>
             (let descriptions = unique (map row_description items);
                  html1 = html @ ''<table>'';
                  html2 = html1 @ ''<tr>'';
                  html3 = html2 @ ''<th>Details</th><th></th><th>QTY</th><th>Items</th>'';
                  html4 = fold (\<lambda>s h. h @ ''<th>'' @ py_str s @ ''</th>'') suppliers html3;
                  html5 = html4 @ ''</tr>''
              in case render_items items suppliers descriptions brand code power_type html5 of
                   Inl e \<Rightarrow> Inl e
                 | Inr (totals, html6) \<Rightarrow>
                     (let html7 = html6 @ ''<tr>'';
                          html8 = html7 @ ''<td></td><td><b>Tax</b></td>'';
                          html9 = fold (\<lambda>_ h. h @ ''<td>'' @ format_2f tax_percent @ ''%</td>'')
                                    suppliers html8;
                          html10 = html9 @ ''</tr>'';
                          html11 = html10 @ ''<tr class='' @ [CHR 0x27] @ ''total-row'' @ [CHR 0x27] @ ''>'';
                          html12 = html11 @ ''<td></td><td>Total</td>''
                      in case total_cells tax_rate totals suppliers html12 of
                           Inl e \<Rightarrow> Inl e
                         | Inr html13 \<Rightarrow> Inr (html13 @ ''</tr>'' @ ''</table>''))))"

fun render_groups :: "row list \<Rightarrow> rat \<Rightarrow> rat \<Rightarrow> (string option \<times> string option) list \<Rightarrow>
    string \<Rightarrow> error + string" where
  "render_groups df tax_percent tax_rate [] html = Inr html"
| "render_groups df tax_percent tax_rate ((code, power_type) # keys) html =
     (case render_group df tax_percent tax_rate code power_type html of
        Inl e \<Rightarrow> Inl e
      | Inr html' \<Rightarrow> render_groups df tax_percent tax_rate keys html')"

definition generate_html_table :: "row list \<Rightarrow> rat \<Rightarrow> error + string" where
  "generate_html_table df tax_percent =
     (let tax_rate = tax_percent / 100;
          html = html_head
      in case render_groups df tax_percent tax_rate (group_keys df) html of
           Inl e \<Rightarrow> Inl e
         | Inr html' \<Rightarrow> Inr (html' @ ''</div>''))"

subsection \<open>The workbook: the "Generate Excel File" handler (lines 281-404)\<close>

text \<open>A formula is kept in structured form. \<open>XLineFormula q r p\<close> is the text
  \<^verbatim>\<open>f"={qty_letter}{row}*{price}"\<close> with the quantity column \<open>q\<close>, the row \<open>r\<close> and
  the price \<open>p\<close>; \<open>XTotalFormula c a b t\<close> is
  \<^verbatim>\<open>f"=SUM({c}{a}:{c}{b})*(1+{c}{t})"\<close>. Columns are kept as numbers where openpyxl's
  \<^verbatim>\<open>get_column_letter\<close> prints their letters.\<close>

datatype xl_value =
    XStr string
  | XData "string option"
  | XInt int
  | XNum rat
  | XLineFormula nat nat rat
  | XTotalFormula nat nat nat nat

datatype xl_fill = header_fill | total_fill

datatype xl_number_format = FORMAT_CURRENCY_USD_SIMPLE | FORMAT_PERCENTAGE_00

text \<open>One effect on the worksheet, at a row and a column. The four flags of a border say
  whether the top, bottom, left and right side is the thin side.\<close>

datatype xl_write =
    SetValue nat nat xl_value
  | SetFill nat nat xl_fill
  | SetNumberFormat nat nat xl_number_format
  | SetBorder nat nat bool bool bool bool

fun write_row :: "xl_write \<Rightarrow> nat" where
  "write_row (SetValue r c v) = r"
| "write_row (SetFill r c f) = r"
| "write_row (SetNumberFormat r c f) = r"
| "write_row (SetBorder r c t b l rt) = r"

definition start_row_offset :: nat where
  "start_row_offset = 1"

definition start_col_offset :: nat where
  "start_col_offset = 1"

text \<open>Lines 318-332: the header row.\<close>

definition header_writes :: "nat \<Rightarrow> string option list \<Rightarrow> xl_write list" where
  "header_writes start_row suppliers =
     [SetValue (start_row + start_row_offset) (1 + start_col_offset) (XStr ''Details''),
      SetValue (start_row + start_row_offset) (3 + start_col_offset) (XStr ''Image''),
      SetValue (start_row + start_row_offset) (4 + start_col_offset) (XStr ''QTY''),
      SetValue (start_row + start_row_offset) (5 + start_col_offset) (XStr ''Items'')] @
     map (\<lambda>(i, supplier).
            SetValue (start_row + start_row_offset) (6 + i + start_col_offset) (XData supplier))
         (enumerate 0 suppliers) @
     (let last_header_col = 5 + length suppliers + start_col_offset
      in map (\<lambda>col. SetFill (start_row + start_row_offset) col header_fill)
           [1 + start_col_offset ..< last_header_col + 1])"

text \<open>Lines 334-341: the identity cells.\<close>

definition identity_writes :: "nat \<Rightarrow> string option \<Rightarrow> string option \<Rightarrow> string option \<Rightarrow>
    xl_write list" where
  "identity_writes data_row brand code power_type =
     [SetValue (data_row + start_row_offset) (1 + start_col_offset) (XStr ''Brand''),
      SetValue (data_row + start_row_offset) (2 + start_col_offset) (XData brand),
      SetValue (data_row + 1 + start_row_offset) (1 + start_col_offset) (XStr ''Code''),
      SetValue (data_row + 1 + start_row_offset) (2 + start_col_offset) (XData code),
      SetValue (data_row + 2 + start_row_offset) (1 + start_col_offset) (XStr ''Power Type''),
      SetValue (data_row + 2 + start_row_offset) (2 + start_col_offset) (XData power_type)]"

text \<open>Lines 350-358: the supplier cells of one item row.\<close>

definition line_writes :: "row list \<Rightarrow> string option list \<Rightarrow> nat \<Rightarrow> string option \<Rightarrow>
    xl_write list" where
  "line_writes items suppliers row desc =
     concat (map (\<lambda>(i, supplier).
        (let col_idx = 6 + i + start_col_offset;
             price = lookup_price items supplier desc
         in [SetValue row col_idx (XLineFormula (4 + start_col_offset) row price),
             SetNumberFormat row col_idx FORMAT_CURRENCY_USD_SIMPLE]))
       (enumerate 0 suppliers))"

text \<open>Lines 343-358: the item rows.\<close>

definition item_writes :: "row list \<Rightarrow> string option list \<Rightarrow> string option list \<Rightarrow> nat \<Rightarrow>
    xl_write list" where
  "item_writes items suppliers descriptions data_row =
     concat (map (\<lambda>(i_desc, desc).
        (let row = data_row + i_desc + start_row_offset
         in [SetValue row (4 + start_col_offset) (XInt 1),
             SetValue row (5 + start_col_offset) (XData desc)] @
            line_writes items suppliers row desc))
       (enumerate 0 descriptions))"

text \<open>Line 360.\<close>

definition extra_rows :: "row list \<Rightarrow> nat" where
  "extra_rows items = (if Some ''subitem'' \<notin> set (map row_type items) then 2 else 0)"

text \<open>Lines 363-368: the tax row.\<close>

definition tax_writes :: "nat \<Rightarrow> rat \<Rightarrow> nat \<Rightarrow> xl_write list" where
  "tax_writes tax_row tax_rate n_suppliers =
     SetValue tax_row (5 + start_col_offset) (XStr ''Tax'') #
     concat (map (\<lambda>i.
        (let col_idx = 6 + i + start_col_offset
         in [SetValue tax_row col_idx (XNum tax_rate),
             SetNumberFormat tax_row col_idx FORMAT_PERCENTAGE_00]))
       [0 ..< n_suppliers])"

text \<open>Lines 370-385: the total row.\<close>

definition total_writes :: "nat \<Rightarrow> nat \<Rightarrow> nat \<Rightarrow> nat \<Rightarrow> nat \<Rightarrow> xl_write list" where
  "total_writes total_row first_item_row last_item_row tax_row n_suppliers =
     [SetValue total_row (5 + start_col_offset) (XStr ''Total''),
      SetFill total_row (5 + start_col_offset) total_fill] @
     concat (map (\<lambda>i.
        (let col_idx = 6 + i + start_col_offset
         in [SetValue total_row col_idx
               (XTotalFormula col_idx first_item_row last_item_row tax_row),
             SetNumberFormat total_row col_idx FORMAT_CURRENCY_USD_SIMPLE,
             SetFill total_row col_idx total_fill]))
       [0 ..< n_suppliers])"

text \<open>Lines 387-399: the border around the block.\<close>

definition border_writes :: "nat \<Rightarrow> nat \<Rightarrow> nat \<Rightarrow> nat \<Rightarrow> xl_write list" where
  "border_writes first_row last_row first_col last_col =
     concat (map (\<lambda>r.
        map (\<lambda>c. SetBorder r c (r = first_row) (r = last_row) (c = first_col) (c = last_col))
          [first_col ..< last_col + 1])
       [first_row ..< last_row + 1])"

text \<open>One pass of the loop over the groups (lines 301-399): the writes of the block and
  the local \<open>total_row\<close>, from which line 401 sets the next \<open>current_row\<close>.\<close>

definition excel_group :: "row list \<Rightarrow> rat \<Rightarrow> nat \<Rightarrow> string option \<Rightarrow> string option \<Rightarrow>
    error + (xl_write list \<times> nat)" where
  "excel_group df tax_rate current_row code power_type =
     (let items = items_for_code df code power_type;
          suppliers = unique (map row_supplier items)
      in case group_brand items of
           Inl e \<Rightarrow> Inl e
         | Inr brand \<Rightarrow>
             (let descriptions = unique (map row_description items);
                  start_row = current_row;
                  data_row = start_row + 1;
                  tax_row = data_row + length descriptions + extra_rows items + start_row_offset;
                  total_row = tax_row + 1;
                  first_item_row = data_row + start_row_offset;
                  last_item_row = tax_row - 1;
                  first_row = start_row + start_row_offset;
                  last_row = total_row;
                  first_col = 1 + start_col_offset;
                  last_col = 5 + length suppliers + start_col_offset
              in Inr (header_writes start_row suppliers @
                      identity_writes data_row brand code power_type @
                      item_writes items suppliers descriptions data_row @
                      tax_writes tax_row tax_rate (length suppliers) @
                      total_writes total_row first_item_row last_item_row tax_row
                        (length suppliers) @
                      border_writes first_row last_row first_col last_col,
                      total_row)))"

fun excel_groups :: "row list \<Rightarrow> rat \<Rightarrow> (string option \<times> string option) list \<Rightarrow> nat \<Rightarrow>
    xl_write list \<Rightarrow> error + xl_write list" where
  "excel_groups df tax_rate [] current_row ws = Inr ws"
| "excel_groups df tax_rate ((code, power_type) # keys) current_row ws =
     (case excel_group df tax_rate current_row code power_type of
        Inl e \<Rightarrow> Inl e
      | Inr (w, total_row) \<Rightarrow> excel_groups df tax_rate keys (total_row + 3) (ws @ w))"

definition generate_excel_file :: "row list \<Rightarrow> rat \<Rightarrow> error + xl_write list" where
  "generate_excel_file df tax_percent =
     (let tax_rate = tax_percent / 100;
          current_row = 1
      in excel_groups df tax_rate (group_keys df) current_row [])"

text \<open>The total rows of the groups, in the order the loop visits them: the values the
  local \<open>total_row\<close> takes.\<close>

fun total_rows :: "row list \<Rightarrow> rat \<Rightarrow> (string option \<times> string option) list \<Rightarrow> nat \<Rightarrow> nat list" where
  "total_rows df tax_rate [] current_row = []"
| "total_rows df tax_rate ((code, power_type) # keys) current_row =
     (case excel_group df tax_rate current_row code power_type of
        Inl e \<Rightarrow> []
      | Inr (w, total_row) \<Rightarrow> total_row # total_rows df tax_rate keys (total_row + 3))"

text \<open>The sheet a sequence of writes leaves: the value last written to a cell.\<close>

fun sheet_of :: "xl_write list \<Rightarrow> nat \<times> nat \<Rightarrow> xl_value option" where
  "sheet_of [] = (\<lambda>_. None)"
| "sheet_of (SetValue r c v # ws) =
     (\<lambda>p. case sheet_of ws p of Some v' \<Rightarrow> Some v' | None \<Rightarrow> (if p = (r, c) then Some v else None))"
| "sheet_of (_ # ws) = sheet_of ws"

text \<open>What a spreadsheet program computes for a line formula: the number in the
  quantity cell times the literal price.\<close>

definition eval_line_formula :: "(nat \<times> nat \<Rightarrow> xl_value option) \<Rightarrow> xl_value \<Rightarrow> rat option" where
  "eval_line_formula sheet v =
     (case v of
        XLineFormula q r p \<Rightarrow>
          (case sheet (r, q) of Some (XInt n) \<Rightarrow> Some (of_int n * p) | _ \<Rightarrow> None)
      | _ \<Rightarrow> None)"

text \<open>\<open>blank_rows_after ws t n\<close>: the \<open>n\<close> rows after row \<open>t\<close> carry no cell and the row
  after them does.\<close>

definition blank_rows_after :: "xl_write list \<Rightarrow> nat \<Rightarrow> nat \<Rightarrow> bool" where
  "blank_rows_after ws t n =
     (list_all (\<lambda>w. write_row w \<le> t \<or> t + n < write_row w) ws \<and>
      list_ex (\<lambda>w. write_row w = t + n + 1) ws)"

subsection \<open>The PDF upload check (lines 40-59)\<close>

record pdf =
  pdf_name :: string
  pdf_content :: string

datatype effect =
    Warning string
  | Post string "(string \<times> string) list" nat

text \<open>The effects of one run of lines 40-59 on the uploaded files \<open>pdfs\<close> (an empty list
  when nothing is uploaded), with the state \<open>pressed\<close> of the button. The address and the
  base64 encoder are parameters.\<close>

definition pdf_upload_handler :: "string \<Rightarrow> (string \<Rightarrow> string) \<Rightarrow> pdf list \<Rightarrow> bool \<Rightarrow>
    effect list" where
  "pdf_upload_handler POWER_AUTOMATE_URL b64encode pdfs pressed =
     (if pdfs \<noteq> [] \<and> length pdfs \<noteq> 3
      then [Warning ''Please upload exactly 3 PDF files.''] else []) @
     (if pdfs \<noteq> [] \<and> length pdfs = 3
      then (if pressed
            then (let files_payload = map (\<lambda>p. (pdf_name p, b64encode (pdf_content p))) pdfs
                  in [Post POWER_AUTOMATE_URL files_payload 180])
            else [])
      else [])"

subsection \<open>The specification's vocabulary\<close>

text \<open>These definitions follow the words of the specification, not the code; the
  theorems below compare the code with them.\<close>

text \<open>The position of the first occurrence of a value in a list.\<close>

fun first_index :: "'a list \<Rightarrow> 'a \<Rightarrow> nat" where
  "first_index [] a = 0"
| "first_index (x # xs) a = (if x = a then 0 else Suc (first_index xs a))"

text \<open>\<open>ys\<close> lists the values of \<open>xs\<close>, each once, in the order of their first
  occurrences in \<open>xs\<close>.\<close>

definition first_occurrence_order :: "'a list \<Rightarrow> 'a list \<Rightarrow> bool" where
  "first_occurrence_order xs ys =
     (distinct ys \<and> set ys = set xs \<and>
      sorted_wrt (\<lambda>a b. first_index xs a < first_index xs b) ys)"

text \<open>Section 4.2: the pre-tax subtotal of a supplier is the sum of its prices over the
  descriptions of the group, and the final total applies the tax percentage.\<close>

definition spec_subtotal :: "row list \<Rightarrow> string option list \<Rightarrow> string option \<Rightarrow> rat" where
  "spec_subtotal items descriptions s = sum_list (map (\<lambda>d. lookup_price items s d) descriptions)"

definition spec_final_total :: "rat \<Rightarrow> rat \<Rightarrow> rat" where
  "spec_final_total subtotal tax_percent = subtotal * (1 + tax_percent / 100)"

text \<open>Section 4.3: the table of one group, written out cell by cell.\<close>

definition header_cell :: "string option \<Rightarrow> string" where
  "header_cell s = ''<th>'' @ py_str s @ ''</th>''"

definition header_row_markup :: "string option list \<Rightarrow> string" where
  "header_row_markup suppliers =
     ''<tr>'' @ ''<th>Details</th><th></th><th>QTY</th><th>Items</th>'' @
     concat (map header_cell suppliers) @ ''</tr>''"

definition price_cell :: "row list \<Rightarrow> string option \<Rightarrow> string option \<Rightarrow> string" where
  "price_cell items desc s = ''<td>$'' @ format_comma_2f (lookup_price items s desc) @ ''</td>''"

definition price_row_markup :: "row list \<Rightarrow> string option list \<Rightarrow> string option \<Rightarrow> string" where
  "price_row_markup items suppliers desc = concat (map (price_cell items desc) suppliers)"

definition first_item_row_markup :: "row list \<Rightarrow> string option list \<Rightarrow> string option list \<Rightarrow>
    string option \<Rightarrow> string option \<Rightarrow> string option \<Rightarrow> string" where
  "first_item_row_markup items suppliers descriptions brand code power_type =
     ''<tr>'' @
     first_row_head (length descriptions + 2) brand code power_type (hd descriptions) @
     price_row_markup items suppliers (hd descriptions) @ ''</tr>''"

definition item_row_markup :: "row list \<Rightarrow> string option list \<Rightarrow> string option \<Rightarrow> string" where
  "item_row_markup items suppliers desc =
     ''<tr>'' @ ''<td>1</td><td>'' @ py_str desc @ ''</td>'' @
     price_row_markup items suppliers desc @ ''</tr>''"

definition item_rows_markup :: "row list \<Rightarrow> string option list \<Rightarrow> string option list \<Rightarrow>
    string option \<Rightarrow> string option \<Rightarrow> string option \<Rightarrow> string" where
  "item_rows_markup items suppliers descriptions brand code power_type =
     first_item_row_markup items suppliers descriptions brand code power_type @
     concat (map (item_row_markup items suppliers) (tl descriptions))"

definition tax_cell :: "rat \<Rightarrow> string option \<Rightarrow> string" where
  "tax_cell tax_percent s = ''<td>'' @ format_2f tax_percent @ ''%</td>''"

definition tax_row_markup :: "rat \<Rightarrow> string option list \<Rightarrow> string" where
  "tax_row_markup tax_percent suppliers =
     ''<tr>'' @ ''<td></td><td><b>Tax</b></td>'' @
     concat (map (tax_cell tax_percent) suppliers) @ ''</tr>''"

definition total_cell :: "row list \<Rightarrow> string option list \<Rightarrow> rat \<Rightarrow> string option \<Rightarrow> string" where
  "total_cell items descriptions tax_percent s =
     ''<td>$'' @
     format_comma_2f (spec_final_total (spec_subtotal items descriptions s) tax_percent) @
     ''</td>''"

definition total_row_markup :: "row list \<Rightarrow> string option list \<Rightarrow> string option list \<Rightarrow> rat \<Rightarrow>
    string" where
  "total_row_markup items suppliers descriptions tax_percent =
     ''<tr class='' @ [CHR 0x27] @ ''total-row'' @ [CHR 0x27] @ ''>'' @ ''<td></td><td>Total</td>'' @
     concat (map (total_cell items descriptions tax_percent) suppliers) @ ''</tr>''"

definition table_markup :: "row list \<Rightarrow> string option list \<Rightarrow> string option list \<Rightarrow>
    string option \<Rightarrow> string option \<Rightarrow> string option \<Rightarrow> rat \<Rightarrow> string" where
  "table_markup items suppliers descriptions brand code power_type tax_percent =
     ''<table>'' @ header_row_markup suppliers @
     item_rows_markup items suppliers descriptions brand code power_type @
     tax_row_markup tax_percent suppliers @
     total_row_markup items suppliers descriptions tax_percent @
     ''</table>''"

text \<open>The table of the group of a key of the table \<open>df\<close>.\<close>

definition group_markup :: "row list \<Rightarrow> rat \<Rightarrow> string option \<times> string option \<Rightarrow> string" where
  "group_markup df tax_percent key =
     (let items = items_for_code df (fst key) (snd key)
      in table_markup items (unique (map row_supplier items)) (unique (map row_description items))
           (case group_brand items of Inl e \<Rightarrow> None | Inr brand \<Rightarrow> brand)
           (fst key) (snd key) tax_percent)"

text \<open>The values the loop variable \<open>current_row\<close> takes on entry to each pass.\<close>

fun start_rows :: "row list \<Rightarrow> rat \<Rightarrow> (string option \<times> string option) list \<Rightarrow> nat \<Rightarrow> nat list" where
  "start_rows df tax_rate [] current_row = []"
| "start_rows df tax_rate ((code, power_type) # keys) current_row =
     (case excel_group df tax_rate current_row code power_type of
        Inl e \<Rightarrow> []
      | Inr (w, total_row) \<Rightarrow> current_row # start_rows df tax_rate keys (total_row + 3))"

text \<open>Section 4.4: the cells of the block of one group that starts at \<open>current_row = r\<close>.\<close>

definition block_writes :: "row list \<Rightarrow> rat \<Rightarrow> nat \<Rightarrow> string option \<Rightarrow> string option \<Rightarrow>
    string option \<Rightarrow> xl_write list" where
  "block_writes items tax_rate r brand code power_type =
     (let suppliers = unique (map row_supplier items);
          descriptions = unique (map row_description items);
          t = r + length descriptions + extra_rows items + 2
      in header_writes r suppliers @
         identity_writes (r + 1) brand code power_type @
         item_writes items suppliers descriptions (r + 1) @
         tax_writes t tax_rate (length suppliers) @
         total_writes (t + 1) (r + 2) (t - 1) t (length suppliers) @
         border_writes (r + 1) (t + 1) 2 (6 + length suppliers))"

subsection \<open>Example tables\<close>

definition quote_row :: "string \<Rightarrow> string \<Rightarrow> string \<Rightarrow> string \<Rightarrow> string \<Rightarrow> string \<Rightarrow> rat \<Rightarrow> row" where
  "quote_row t s b c d p pr =
     \<lparr>row_type = Some t, row_supplier = Some s, row_brand = Some b, row_code = Some c,
      row_description = Some d, row_power_type = Some p, row_price = pr\<rparr>"

text \<open>Two groups that share the code \<open>C1\<close>: the group of \<open>AC\<close> is the example of
  section 8 of the specification; the group of \<open>DC\<close> has no price for supplier \<open>B\<close> and
  description \<open>X\<close>.\<close>

definition example_table :: "row list" where
  "example_table =
     [quote_row ''item'' ''A'' ''Acme'' ''C1'' ''X'' ''AC'' 10,
      quote_row ''subitem'' ''A'' ''Acme'' ''C1'' ''Y'' '''' 20,
      quote_row ''item'' ''B'' ''Acme'' ''C1'' ''X'' ''AC'' 15,
      quote_row ''subitem'' ''B'' ''Acme'' ''C1'' ''Y'' '''' 5,
      quote_row ''item'' ''A'' ''Acme'' ''C1'' ''X'' ''DC'' (25 / 2)]"

text \<open>An item row whose code cell is missing.\<close>

definition nocode_table :: "row list" where
  "nocode_table =
     [\<lparr>row_type = Some ''item'', row_supplier = Some ''A'', row_brand = Some ''Acme'',
       row_code = None, row_description = Some ''X'', row_power_type = Some ''AC'',
       row_price = 10\<rparr>]"

text \<open>A price with three decimals.\<close>

definition mill_table :: "row list" where
  "mill_table = [quote_row ''item'' ''A'' ''Acme'' ''C1'' ''X'' ''AC'' (10126 / 1000)]"

text \<open>Two rows for one supplier and one description.\<close>

definition duplicate_table :: "row list" where
  "duplicate_table =
     [quote_row ''item'' ''A'' ''Acme'' ''C1'' ''X'' ''AC'' 10,
      quote_row ''item'' ''A'' ''Acme'' ''C1'' ''X'' ''AC'' 99]"

text \<open>The sheet written for the example table with a tax of 12 percent, and for the
  table with the three-decimal price.\<close>

definition example_sheet :: "xl_write list" where
  "example_sheet = (case generate_excel_file example_table 12 of Inl e \<Rightarrow> [] | Inr ws \<Rightarrow> ws)"

definition mill_sheet :: "xl_write list" where
  "mill_sheet = (case generate_excel_file mill_table 12 of Inl e \<Rightarrow> [] | Inr ws \<Rightarrow> ws)"

subsection \<open>Reading a rendered number back\<close>

text \<open>The number a reader takes from a two-decimal rendering: an optional minus sign,
  digits with thousands separators, a point and two digits.\<close>

definition digit_value :: "char \<Rightarrow> nat" where
  "digit_value c = of_char c - 48"

definition digits_nat :: "string \<Rightarrow> nat" where
  "digits_nat ds = foldl (\<lambda>n c. 10 * n + digit_value c) 0 ds"

definition read_2f :: "string \<Rightarrow> rat" where
  "read_2f s =
     (let neg = (s \<noteq> [] \<and> hd s = CHR ''-'');
          body = filter (\<lambda>c. c \<noteq> CHR '','') (if neg then tl s else s);
          ip = takeWhile (\<lambda>c. c \<noteq> CHR ''.'') body;
          fp = tl (dropWhile (\<lambda>c. c \<noteq> CHR ''.'') body)
      in (if neg then - 1 else 1) * (of_nat (digits_nat ip) + of_nat (digits_nat fp) / 100))"

definition is_digit :: "char \<Rightarrow> bool" where
  "is_digit c = (c \<in> digit_char ` {0..<10})"

section \<open>Grouping\<close>

lemma py_eq_iff: "py_eq a b \<longleftrightarrow> a \<noteq> None \<and> a = b"
  by (cases a; cases b) (auto simp: py_eq_def)

lemma set_drop_duplicates: "set (drop_duplicates xs) = set xs"
  by (induction xs rule: drop_duplicates.induct) auto

lemma distinct_drop_duplicates: "distinct (drop_duplicates xs)"
  by (induction xs rule: drop_duplicates.induct) (auto simp: set_drop_duplicates)

lemma first_index_filter_mono:
  "a \<noteq> x \<Longrightarrow> b \<noteq> x \<Longrightarrow>
   first_index (filter (\<lambda>y. y \<noteq> x) xs) a < first_index (filter (\<lambda>y. y \<noteq> x) xs) b \<Longrightarrow>
   first_index xs a < first_index xs b"
  by (induction xs) (auto split: if_splits)

lemma sorted_wrt_drop_duplicates:
  "sorted_wrt (\<lambda>a b. first_index xs a < first_index xs b) (drop_duplicates xs)"
proof (induction xs rule: drop_duplicates.induct)
  case 1
  show ?case by simp
next
  case (2 x xs)
  let ?f = "filter (\<lambda>y. y \<noteq> x) xs"
  have tail: "sorted_wrt (\<lambda>a b. first_index (x # xs) a < first_index (x # xs) b)
     (drop_duplicates ?f)"
  proof (rule sorted_wrt_mono_rel [OF _ "2.IH"])
    fix a b
    assume "a \<in> set (drop_duplicates ?f)" "b \<in> set (drop_duplicates ?f)"
      and "first_index ?f a < first_index ?f b"
    then show "first_index (x # xs) a < first_index (x # xs) b"
      using first_index_filter_mono [of a x b xs] by (auto simp: set_drop_duplicates)
  qed
  show ?case using tail by (auto simp: set_drop_duplicates)
qed

lemma drop_duplicates_first_occurrence: "first_occurrence_order xs (drop_duplicates xs)"
  by (simp add: first_occurrence_order_def sorted_wrt_drop_duplicates
      set_drop_duplicates distinct_drop_duplicates)

lemma first_index_inj:
  "a \<in> set xs \<Longrightarrow> b \<in> set xs \<Longrightarrow> first_index xs a = first_index xs b \<Longrightarrow> a = b"
  by (induction xs) (auto split: if_splits)

text \<open>The order of first occurrences determines the list: there is one such listing.\<close>

lemma first_occurrence_order_unique:
  assumes "first_occurrence_order xs ys" and "first_occurrence_order xs zs"
  shows "ys = zs"
proof -
  let ?f = "first_index xs"
  have s1: "sorted_wrt (<) (map ?f ys)" and s2: "sorted_wrt (<) (map ?f zs)"
    using assms by (simp_all add: first_occurrence_order_def sorted_wrt_map)
  have "set (map ?f ys) = set (map ?f zs)"
    using assms by (simp add: first_occurrence_order_def)
  then have eq: "map ?f ys = map ?f zs"
    using s1 s2 strict_sorted_equal by blast
  have "inj_on ?f (set ys \<union> set zs)"
    using assms by (auto simp: first_occurrence_order_def inj_on_def dest: first_index_inj)
  then show ?thesis
    using eq by (rule inj_on_map_eq_map [THEN iffD1])
qed

lemma main_items_iff:
  "r \<in> set (main_items df) \<longleftrightarrow>
   r \<in> set df \<and> row_type r = Some ''item'' \<and> row_power_type r \<noteq> None \<and>
   row_power_type r \<noteq> Some ''''"
  by (auto simp: main_items_def py_eq_iff py_ne_def notna_def)

lemma items_for_code_iff:
  "r \<in> set (items_for_code df c p) \<longleftrightarrow>
   r \<in> set df \<and> row_code r \<noteq> None \<and> row_code r = c \<and>
   ((row_power_type r \<noteq> None \<and> row_power_type r = p) \<or> row_power_type r = None \<or>
    row_power_type r = Some '''') \<and>
   (row_type r = Some ''item'' \<or> row_type r = Some ''subitem'')"
  by (cases "row_type r") (auto simp: items_for_code_def py_eq_iff isna_def isin_def)


lemma group_brand_Inl_iff:
  "group_brand items = Inl e \<longleftrightarrow> e = IndexError \<and> (\<forall>r \<in> set items. row_type r \<noteq> Some ''item'')"
proof (cases "filter (\<lambda>r. py_eq (row_type r) (Some ''item'')) items")
  case Nil
  then show ?thesis
    by (auto simp: group_brand_def py_eq_iff filter_empty_conv)
next
  case (Cons x xs)
  then have "x \<in> set (filter (\<lambda>r. py_eq (row_type r) (Some ''item'')) items)"
    by simp
  then have "x \<in> set items \<and> row_type x = Some ''item''"
    by (simp add: py_eq_iff)
  with Cons show ?thesis
    by (auto simp: group_brand_def)
qed


section \<open>The markup renderer\<close>

lemma fold_append_concat:
  "fold (\<lambda>s h. h @ f s) xs h0 = h0 @ concat (map f xs)"
  by (induction xs arbitrary: h0) auto

lemma add_total_Some:
  "map_of totals s = Some v \<Longrightarrow> add_total totals s p = Inr (AList.update s (v + p) totals)"
  by (simp add: add_total_def)

lemma price_cells_step:
  "map_of totals s = Some v \<Longrightarrow>
   price_cells items d (s # ss) totals html =
   price_cells items d ss (AList.update s (v + lookup_price items s d) totals)
     (html @ price_cell items d s)"
  by (simp add: add_total_Some price_cell_def Let_def)

lemma price_row_markup_Cons:
  "price_row_markup items (s # ss) d = price_cell items d s @ price_row_markup items ss d"
  by (simp add: price_row_markup_def)

text \<open>The supplier loop of one item row: it never raises when every supplier is a key
  of the dictionary, appends one price cell per supplier, and adds each price to the
  entry of its supplier.\<close>

lemma price_cells_result:
  assumes "distinct ss" and "set ss \<subseteq> fst ` set totals"
  shows "\<exists>totals'. price_cells items d ss totals html =
            Inr (totals', html @ price_row_markup items ss d) \<and>
          fst ` set totals' = fst ` set totals \<and>
          (\<forall>s. map_of totals' s =
             (if s \<in> set ss then map_option (\<lambda>v. v + lookup_price items s d) (map_of totals s)
              else map_of totals s))"
  using assms
proof (induction ss arbitrary: totals html)
  case Nil
  show ?case by (simp add: price_row_markup_def)
next
  case (Cons s ss)
  have sin: "s \<in> fst ` set totals"
    using Cons.prems by simp
  then obtain v where v: "map_of totals s = Some v"
    by (cases "map_of totals s") (auto simp: map_of_eq_None_iff)
  define t where "t = AList.update s (v + lookup_price items s d) totals"
  define h where "h = html @ price_cell items d s"
  have "map fst t = map fst totals"
    using sin by (simp add: t_def update_keys)
  then have keys: "fst ` set t = fst ` set totals"
    by (metis set_map)
  have mt: "map_of t = (map_of totals)(s \<mapsto> v + lookup_price items s d)"
    by (simp add: t_def update_conv')
  have d: "distinct ss" and sub: "set ss \<subseteq> fst ` set t" and nin: "s \<notin> set ss"
    using Cons.prems keys by auto
  from Cons.IH [OF d sub, of h]
  obtain totals' where
    r: "price_cells items d ss t h = Inr (totals', h @ price_row_markup items ss d)"
    and k: "fst ` set totals' = fst ` set t"
    and m: "\<forall>s'. map_of totals' s' =
             (if s' \<in> set ss then map_option (\<lambda>v. v + lookup_price items s' d) (map_of t s')
              else map_of t s')"
    by (elim exE conjE)
  have res: "price_cells items d (s # ss) totals html =
          Inr (totals', html @ price_row_markup items (s # ss) d)"
    using r by (simp only: price_cells_step [OF v] price_row_markup_Cons t_def h_def append_assoc)
  have upd: "\<forall>s'. map_of totals' s' =
     (if s' \<in> set (s # ss) then map_option (\<lambda>v. v + lookup_price items s' d) (map_of totals s')
      else map_of totals s')"
  proof
    fix s'
    show "map_of totals' s' =
     (if s' \<in> set (s # ss) then map_option (\<lambda>v. v + lookup_price items s' d) (map_of totals s')
      else map_of totals s')"
      using m [rule_format, of s'] nin v by (cases "s' = s") (simp_all add: mt)
  qed
  show ?case
    using res k keys upd by (intro exI [of _ totals']) simp
qed

lemma remaining_rows_step:
  "price_cells items d suppliers totals (html @ ''<tr>'' @ ''<td>1</td><td>'' @ py_str d @ ''</td>'')
     = Inr (totals', html @ ''<tr>'' @ ''<td>1</td><td>'' @ py_str d @ ''</td>'' @ pr) \<Longrightarrow>
   remaining_rows items suppliers (d # ds) totals html =
   remaining_rows items suppliers ds totals'
     (html @ ''<tr>'' @ ''<td>1</td><td>'' @ py_str d @ ''</td>'' @ pr @ ''</tr>'')"
  by (simp add: Let_def)

text \<open>The loop over the remaining descriptions.\<close>

lemma remaining_rows_result:
  assumes "distinct suppliers" and "set suppliers \<subseteq> fst ` set totals"
  shows "\<exists>totals'. remaining_rows items suppliers ds totals html =
            Inr (totals', html @ concat (map (item_row_markup items suppliers) ds)) \<and>
          fst ` set totals' = fst ` set totals \<and>
          (\<forall>s \<in> set suppliers. map_of totals' s =
             map_option (\<lambda>v. v + spec_subtotal items ds s) (map_of totals s))"
  using assms
proof (induction ds arbitrary: totals html)
  case Nil
  show ?case by (simp add: spec_subtotal_def option.map_ident)
next
  case (Cons d ds)
  define h where "h = html @ ''<tr>'' @ ''<td>1</td><td>'' @ py_str d @ ''</td>''"
  from price_cells_result [OF Cons.prems, of items d h]
  obtain t where
    r: "price_cells items d suppliers totals h = Inr (t, h @ price_row_markup items suppliers d)"
    and k: "fst ` set t = fst ` set totals"
    and m: "\<forall>s. map_of t s =
             (if s \<in> set suppliers
              then map_option (\<lambda>v. v + lookup_price items s d) (map_of totals s)
              else map_of totals s)"
    by (elim exE conjE)
  define h' where "h' = html @ item_row_markup items suppliers d"
  have step: "remaining_rows items suppliers (d # ds) totals html =
      remaining_rows items suppliers ds t h'"
    using r remaining_rows_step [of items d suppliers totals html t "price_row_markup items suppliers d" ds]
    by (simp only: h_def h'_def item_row_markup_def append_assoc)
  have sub: "set suppliers \<subseteq> fst ` set t"
    using Cons.prems k by simp
  from Cons.IH [OF Cons.prems(1) sub, of h']
  obtain totals' where
    r': "remaining_rows items suppliers ds t h' =
           Inr (totals', h' @ concat (map (item_row_markup items suppliers) ds))"
    and k': "fst ` set totals' = fst ` set t"
    and m': "\<forall>s \<in> set suppliers. map_of totals' s =
             map_option (\<lambda>v. v + spec_subtotal items ds s) (map_of t s)"
    by (elim exE conjE)
  have res: "remaining_rows items suppliers (d # ds) totals html =
      Inr (totals', html @ concat (map (item_row_markup items suppliers) (d # ds)))"
    using r' unfolding step h'_def by simp
  have upd: "\<forall>s \<in> set suppliers. map_of totals' s =
             map_option (\<lambda>v. v + spec_subtotal items (d # ds) s) (map_of totals s)"
  proof
    fix s assume s: "s \<in> set suppliers"
    show "map_of totals' s = map_option (\<lambda>v. v + spec_subtotal items (d # ds) s) (map_of totals s)"
      using m' [rule_format, OF s] m [rule_format, of s] s
      by (cases "map_of totals s") (simp_all add: spec_subtotal_def add.assoc)
  qed
  show ?case
    using res k k' upd by (intro exI [of _ totals']) simp
qed
lemma render_items_step:
  "price_cells items d suppliers (map (\<lambda>s. (s, 0)) suppliers)
     (html @ ''<tr>'' @ first_row_head (length (d # ds) + 2) brand code power_type d) = Inr (t, h3) \<Longrightarrow>
   render_items items suppliers (d # ds) brand code power_type html =
   remaining_rows items suppliers ds t (h3 @ ''</tr>'')"
  by (simp add: render_items_def Let_def)

text \<open>The item rows of a group: with distinct suppliers and at least one description
  the loops do not raise; the dictionary then holds, for every supplier, the sum of its
  prices over the descriptions.\<close>

lemma render_items_result:
  assumes "distinct suppliers" and "descriptions \<noteq> []"
  shows "\<exists>totals. render_items items suppliers descriptions brand code power_type html =
            Inr (totals, html @ item_rows_markup items suppliers descriptions brand code power_type) \<and>
          (\<forall>s \<in> set suppliers. map_of totals s = Some (spec_subtotal items descriptions s))"
proof -
  from assms(2) obtain d ds where dd: "descriptions = d # ds"
    by (cases descriptions) auto
  define t0 :: "(string option \<times> rat) list" where "t0 = map (\<lambda>s. (s, 0)) suppliers"
  define h where "h = html @ ''<tr>'' @ first_row_head (length (d # ds) + 2) brand code power_type d"
  have k0: "fst ` set t0 = set suppliers"
    by (auto simp: t0_def image_iff)
  have m0: "\<forall>s \<in> set suppliers. map_of t0 s = Some 0"
    by (auto simp: t0_def map_of_map_restrict)
  have sub0: "set suppliers \<subseteq> fst ` set t0"
    using k0 by simp
  from price_cells_result [OF assms(1) sub0, of items d h]
  obtain t where
    r: "price_cells items d suppliers t0 h = Inr (t, h @ price_row_markup items suppliers d)"
    and k: "fst ` set t = fst ` set t0"
    and m: "\<forall>s. map_of t s =
             (if s \<in> set suppliers
              then map_option (\<lambda>v. v + lookup_price items s d) (map_of t0 s)
              else map_of t0 s)"
    by (elim exE conjE)
  define h' where "h' = html @ first_item_row_markup items suppliers descriptions brand code power_type"
  have step: "render_items items suppliers descriptions brand code power_type html =
      remaining_rows items suppliers ds t h'"
    using render_items_step [of items d suppliers html ds brand code power_type t
        "h @ price_row_markup items suppliers d"] r
    by (simp add: dd t0_def h_def h'_def first_item_row_markup_def)
  have sub: "set suppliers \<subseteq> fst ` set t"
    using k k0 by simp
  from remaining_rows_result [OF assms(1) sub, of items ds h']
  obtain totals where
    r': "remaining_rows items suppliers ds t h' =
           Inr (totals, h' @ concat (map (item_row_markup items suppliers) ds))"
    and m': "\<forall>s \<in> set suppliers. map_of totals s =
             map_option (\<lambda>v. v + spec_subtotal items ds s) (map_of t s)"
    by (elim exE conjE)
  have res: "render_items items suppliers descriptions brand code power_type html =
      Inr (totals, html @ item_rows_markup items suppliers descriptions brand code power_type)"
    using r' unfolding step h'_def item_rows_markup_def by (simp add: dd)
  have tot: "\<forall>s \<in> set suppliers. map_of totals s = Some (spec_subtotal items descriptions s)"
  proof
    fix s assume s: "s \<in> set suppliers"
    show "map_of totals s = Some (spec_subtotal items descriptions s)"
      using m' [rule_format, OF s] m [rule_format, of s] m0 [rule_format, OF s] s
      by (simp add: dd spec_subtotal_def)
  qed
  show ?thesis
    using res tot by (intro exI [of _ totals]) simp
qed

lemma total_cells_step:
  "map_of totals s = Some (spec_subtotal items descriptions s) \<Longrightarrow>
   total_cells (tax_percent / 100) totals (s # ss) html =
   total_cells (tax_percent / 100) totals ss (html @ total_cell items descriptions tax_percent s)"
  by (simp add: total_cell_def spec_final_total_def Let_def)

text \<open>The loop of the total row.\<close>

lemma total_cells_result:
  assumes "\<forall>s \<in> set ss. map_of totals s = Some (spec_subtotal items descriptions s)"
  shows "total_cells (tax_percent / 100) totals ss html =
           Inr (html @ concat (map (total_cell items descriptions tax_percent) ss))"
  using assms
proof (induction ss arbitrary: html)
  case Nil
  show ?case by simp
next
  case (Cons s ss)
  have "map_of totals s = Some (spec_subtotal items descriptions s)"
    using Cons.prems by simp
  from total_cells_step [OF this]
  have "total_cells (tax_percent / 100) totals (s # ss) html =
     total_cells (tax_percent / 100) totals ss (html @ total_cell items descriptions tax_percent s)" .
  also have "\<dots> = Inr ((html @ total_cell items descriptions tax_percent s) @
      concat (map (total_cell items descriptions tax_percent) ss))"
    using Cons.prems by (intro Cons.IH) simp
  finally show ?case by simp
qed

lemma drop_duplicates_Nil_iff: "drop_duplicates xs = [] \<longleftrightarrow> xs = []"
  by (cases xs) auto

lemma render_group_brand_Inl:
  "group_brand (items_for_code df code power_type) = Inl e \<Longrightarrow>
   render_group df tax_percent tax_rate code power_type html = Inl e"
  by (simp add: render_group_def Let_def)

lemma render_group_steps:
  assumes "group_brand (items_for_code df code power_type) = Inr brand"
    and "render_items (items_for_code df code power_type)
           (unique (map row_supplier (items_for_code df code power_type)))
           (unique (map row_description (items_for_code df code power_type)))
           brand code power_type
           (html @ ''<table>'' @ header_row_markup
              (unique (map row_supplier (items_for_code df code power_type)))) = Inr (totals, h6)"
    and "total_cells tax_rate totals (unique (map row_supplier (items_for_code df code power_type)))
           (h6 @ tax_row_markup tax_percent
              (unique (map row_supplier (items_for_code df code power_type))) @
            ''<tr class='' @ [CHR 0x27] @ ''total-row'' @ [CHR 0x27] @ ''>'' @
            ''<td></td><td>Total</td>'') = Inr h13"
  shows "render_group df tax_percent tax_rate code power_type html =
           Inr (h13 @ ''</tr>'' @ ''</table>'')"
  using assms
  by (simp add: render_group_def Let_def header_row_markup_def tax_row_markup_def
      fold_append_concat header_cell_def [abs_def] tax_cell_def [abs_def])
text \<open>One pass of the loop over the groups: it raises exactly when the group has no item
  row, and otherwise appends the table of the group.\<close>

lemma render_group_Inr:
  assumes b: "group_brand (items_for_code df code power_type) = Inr brand"
  shows "render_group df tax_percent (tax_percent / 100) code power_type html =
           Inr (html @ table_markup (items_for_code df code power_type)
                  (unique (map row_supplier (items_for_code df code power_type)))
                  (unique (map row_description (items_for_code df code power_type)))
                  brand code power_type tax_percent)"
proof -
  define items where "items = items_for_code df code power_type"
  define suppliers where "suppliers = unique (map row_supplier items)"
  define descriptions where "descriptions = unique (map row_description items)"
  have "items \<noteq> []"
    using b by (auto simp: items_def group_brand_def)
  then have ne: "descriptions \<noteq> []"
    by (simp add: descriptions_def unique_def drop_duplicates_Nil_iff)
  have ds: "distinct suppliers"
    by (simp add: suppliers_def unique_def distinct_drop_duplicates)
  define h5 where "h5 = html @ ''<table>'' @ header_row_markup suppliers"
  from render_items_result [OF ds ne, of items brand code power_type h5]
  obtain totals where
    ri: "render_items items suppliers descriptions brand code power_type h5 =
           Inr (totals, h5 @ item_rows_markup items suppliers descriptions brand code power_type)"
    and tot: "\<forall>s \<in> set suppliers. map_of totals s = Some (spec_subtotal items descriptions s)"
    by (elim exE conjE)
  define h12 where "h12 =
     (h5 @ item_rows_markup items suppliers descriptions brand code power_type) @
     tax_row_markup tax_percent suppliers @
     ''<tr class='' @ [CHR 0x27] @ ''total-row'' @ [CHR 0x27] @ ''>'' @ ''<td></td><td>Total</td>''"
  have tc: "total_cells (tax_percent / 100) totals suppliers h12 =
     Inr (h12 @ concat (map (total_cell items descriptions tax_percent) suppliers))"
    using tot by (rule total_cells_result)
  have "render_group df tax_percent (tax_percent / 100) code power_type html =
     Inr ((h12 @ concat (map (total_cell items descriptions tax_percent) suppliers)) @
          ''</tr>'' @ ''</table>'')"
    using b ri tc unfolding items_def suppliers_def descriptions_def h5_def h12_def
    by (rule render_group_steps)
  also have "(h12 @ concat (map (total_cell items descriptions tax_percent) suppliers)) @
          ''</tr>'' @ ''</table>'' =
      html @ table_markup items suppliers descriptions brand code power_type tax_percent"
    by (simp add: h12_def h5_def table_markup_def total_row_markup_def)
  finally show ?thesis
    by (simp only: items_def suppliers_def descriptions_def)
qed

lemma group_brand_cases:
  "group_brand items = Inl IndexError \<or> (\<exists>b. group_brand items = Inr b)"
  by (cases "group_brand items") (auto simp: group_brand_Inl_iff)

lemma render_group_eq:
  "render_group df tax_percent (tax_percent / 100) code power_type html =
     (case group_brand (items_for_code df code power_type) of
        Inl e \<Rightarrow> Inl IndexError
      | Inr brand \<Rightarrow> Inr (html @ group_markup df tax_percent (code, power_type)))"
proof (cases "group_brand (items_for_code df code power_type)")
  case (Inl e)
  then have "e = IndexError"
    by (simp add: group_brand_Inl_iff)
  then show ?thesis
    using render_group_brand_Inl [OF Inl, of tax_percent "tax_percent / 100" html] Inl by simp
next
  case (Inr brand)
  then show ?thesis
    using render_group_Inr [OF Inr] by (simp add: group_markup_def Let_def)
qed

text \<open>The loop over the groups, and the whole function.\<close>

lemma render_groups_eq:
  "render_groups df tax_percent (tax_percent / 100) keys html =
     (if \<forall>k \<in> set keys. \<exists>b. group_brand (items_for_code df (fst k) (snd k)) = Inr b
      then Inr (html @ concat (map (group_markup df tax_percent) keys))
      else Inl IndexError)"
proof (induction keys arbitrary: html)
  case Nil
  show ?case by simp
next
  case (Cons k keys)
  obtain c p where k: "k = (c, p)" by (cases k)
  show ?case
  proof (cases "group_brand (items_for_code df c p)")
    case (Inl e)
    then show ?thesis
      by (simp add: k render_group_eq)
  next
    case (Inr b)
    then show ?thesis
      by (simp add: k render_group_eq Cons.IH)
  qed
qed

lemma generate_html_table_eq:
  "generate_html_table df tax_percent =
     (if \<forall>k \<in> set (group_keys df). \<exists>b. group_brand (items_for_code df (fst k) (snd k)) = Inr b
      then Inr (html_head @ concat (map (group_markup df tax_percent) (group_keys df)) @ ''</div>'')
      else Inl IndexError)"
  by (simp add: generate_html_table_def Let_def render_groups_eq)

section \<open>The workbook\<close>

lemma header_writes_rows:
  "x \<in> set (header_writes start_row suppliers) \<Longrightarrow> write_row x = start_row + 1"
  by (auto simp: header_writes_def start_row_offset_def Let_def)

lemma identity_writes_rows:
  "x \<in> set (identity_writes data_row brand code power_type) \<Longrightarrow>
   data_row + 1 \<le> write_row x \<and> write_row x \<le> data_row + 3"
  by (auto simp: identity_writes_def start_row_offset_def)

lemma line_writes_rows:
  "x \<in> set (line_writes items suppliers row desc) \<Longrightarrow> write_row x = row"
  by (auto simp: line_writes_def Let_def)

lemma item_writes_rows:
  "x \<in> set (item_writes items suppliers descriptions data_row) \<Longrightarrow>
   data_row + 1 \<le> write_row x \<and> write_row x \<le> data_row + length descriptions"
  by (auto simp: item_writes_def Let_def start_row_offset_def in_set_enumerate_eq
      dest!: line_writes_rows)

lemma tax_writes_rows:
  "x \<in> set (tax_writes tax_row tax_rate n) \<Longrightarrow> write_row x = tax_row"
  by (auto simp: tax_writes_def Let_def)

lemma total_writes_rows:
  "x \<in> set (total_writes total_row a b t n) \<Longrightarrow> write_row x = total_row"
  by (auto simp: total_writes_def Let_def)

lemma border_writes_rows:
  "x \<in> set (border_writes first_row last_row first_col last_col) \<Longrightarrow>
   first_row \<le> write_row x \<and> write_row x \<le> last_row"
  by (auto simp: border_writes_def)

text \<open>One pass of the loop writes the block of the group, or raises.\<close>

lemma excel_group_eq:
  "excel_group df tax_rate r code power_type =
     (case group_brand (items_for_code df code power_type) of
        Inl e \<Rightarrow> Inl IndexError
      | Inr brand \<Rightarrow>
          Inr (block_writes (items_for_code df code power_type) tax_rate r brand code power_type,
               r + length (unique (map row_description (items_for_code df code power_type))) +
               extra_rows (items_for_code df code power_type) + 3))"
proof (cases "group_brand (items_for_code df code power_type)")
  case (Inl e)
  then have "e = IndexError"
    by (simp add: group_brand_Inl_iff)
  with Inl show ?thesis
    by (simp add: excel_group_def Let_def)
next
  case (Inr brand)
  then show ?thesis
    by (simp add: excel_group_def block_writes_def Let_def start_row_offset_def
        start_col_offset_def add_ac numeral_2_eq_2)
qed

lemma block_writes_rows:
  assumes "items \<noteq> []" and "x \<in> set (block_writes items tax_rate r brand code power_type)"
  shows "r + 1 \<le> write_row x \<and>
         write_row x \<le> r + length (unique (map row_description items)) + extra_rows items + 3"
proof -
  have "unique (map row_description items) \<noteq> []"
    using assms(1) by (simp add: unique_def drop_duplicates_Nil_iff)
  then have n: "1 \<le> length (unique (map row_description items))"
    by (cases "unique (map row_description items)") simp_all
  from assms(2) consider
      "x \<in> set (header_writes r (unique (map row_supplier items)))"
    | "x \<in> set (identity_writes (r + 1) brand code power_type)"
    | "x \<in> set (item_writes items (unique (map row_supplier items))
                (unique (map row_description items)) (r + 1))"
    | "x \<in> set (tax_writes (r + length (unique (map row_description items)) + extra_rows items + 2)
                tax_rate (length (unique (map row_supplier items))))"
    | "x \<in> set (total_writes (r + length (unique (map row_description items)) + extra_rows items + 2 + 1)
                (r + 2) (r + length (unique (map row_description items)) + extra_rows items + 2 - 1)
                (r + length (unique (map row_description items)) + extra_rows items + 2)
                (length (unique (map row_supplier items))))"
    | "x \<in> set (border_writes (r + 1)
                (r + length (unique (map row_description items)) + extra_rows items + 2 + 1) 2
                (6 + length (unique (map row_supplier items))))"
    by (auto simp: block_writes_def Let_def)
  then show ?thesis
  proof cases
    case 1
    then show ?thesis using header_writes_rows [OF 1] by simp
  next
    case 2
    then show ?thesis using identity_writes_rows [OF 2] n by simp
  next
    case 3
    then show ?thesis using item_writes_rows [OF 3] by simp
  next
    case 4
    then show ?thesis using tax_writes_rows [OF 4] by simp
  next
    case 5
    then show ?thesis using total_writes_rows [OF 5] by simp
  next
    case 6
    then show ?thesis using border_writes_rows [OF 6] by simp
  qed
qed

lemma block_writes_header:
  "SetValue (r + 1) 2 (XStr ''Details'') \<in> set (block_writes items tax_rate r brand code power_type)"
  by (simp add: block_writes_def Let_def header_writes_def start_row_offset_def
      start_col_offset_def)

lemma block_writes_total:
  "SetValue (r + length (unique (map row_description items)) + extra_rows items + 3) 6
     (XStr ''Total'') \<in> set (block_writes items tax_rate r brand code power_type)"
  by (simp add: block_writes_def Let_def total_writes_def start_col_offset_def add_ac)

text \<open>One block: its cells lie between the header row \<open>current_row + 1\<close> and the total
  row, both of which it writes.\<close>

lemma excel_group_props:
  assumes "excel_group df tax_rate r code power_type = Inr (w, t)"
  shows "(\<forall>x \<in> set w. r + 1 \<le> write_row x \<and> write_row x \<le> t) \<and>
         SetValue (r + 1) 2 (XStr ''Details'') \<in> set w \<and>
         SetValue t 6 (XStr ''Total'') \<in> set w \<and> r + 4 \<le> t"
proof (cases "group_brand (items_for_code df code power_type)")
  case (Inl e)
  then show ?thesis
    using assms by (simp add: excel_group_eq)
next
  case (Inr brand)
  define items where "items = items_for_code df code power_type"
  have w: "w = block_writes items tax_rate r brand code power_type"
    and t: "t = r + length (unique (map row_description items)) + extra_rows items + 3"
    using assms Inr by (simp_all add: excel_group_eq items_def)
  have ne: "items \<noteq> []"
    using Inr by (auto simp: items_def group_brand_def)
  then have "unique (map row_description items) \<noteq> []"
    by (simp add: unique_def drop_duplicates_Nil_iff)
  then have "1 \<le> length (unique (map row_description items))"
    by (cases "unique (map row_description items)") simp_all
  then have "r + 4 \<le> t"
    by (simp add: t)
  moreover have "\<forall>x \<in> set w. r + 1 \<le> write_row x \<and> write_row x \<le> t"
    using block_writes_rows [OF ne] by (simp add: w t)
  moreover have "SetValue (r + 1) 2 (XStr ''Details'') \<in> set w"
    unfolding w by (rule block_writes_header)
  moreover have "SetValue t 6 (XStr ''Total'') \<in> set w"
    unfolding w t by (rule block_writes_total)
  ultimately show ?thesis by simp
qed

text \<open>The loop over the groups: what it appends lies below \<open>current_row\<close>; the local
  \<open>total_row\<close> takes one value per group; after the total row of every group but the last
  come three rows without a cell and then the header row of the next group.\<close>

lemma excel_groups_props:
  assumes "excel_groups df tax_rate keys r ws0 = Inr ws"
  shows "\<exists>w. ws = ws0 @ w \<and>
           (\<forall>x \<in> set w. r + 1 \<le> write_row x) \<and>
           (keys \<noteq> [] \<longrightarrow> SetValue (r + 1) 2 (XStr ''Details'') \<in> set w) \<and>
           length (total_rows df tax_rate keys r) = length keys \<and>
           (\<forall>i < length keys. r + 4 \<le> total_rows df tax_rate keys r ! i \<and>
              SetValue (total_rows df tax_rate keys r ! i) 6 (XStr ''Total'') \<in> set w) \<and>
           (\<forall>i. i + 1 < length keys \<longrightarrow>
              (\<forall>x \<in> set w. write_row x \<le> total_rows df tax_rate keys r ! i \<or>
                 total_rows df tax_rate keys r ! i + 3 < write_row x) \<and>
              SetValue (total_rows df tax_rate keys r ! i + 4) 2 (XStr ''Details'') \<in> set w)"
  using assms
proof (induction keys arbitrary: r ws0)
  case Nil
  then show ?case by simp
next
  case (Cons k keys)
  obtain c p where k: "k = (c, p)" by (cases k)
  from Cons.prems obtain w1 t1 where
    g: "excel_group df tax_rate r c p = Inr (w1, t1)"
    and rest: "excel_groups df tax_rate keys (t1 + 3) (ws0 @ w1) = Inr ws"
    by (auto simp: k split: sum.splits)
  from excel_group_props [OF g] have
    rows1: "\<forall>x \<in> set w1. r + 1 \<le> write_row x \<and> write_row x \<le> t1"
    and hd1: "SetValue (r + 1) 2 (XStr ''Details'') \<in> set w1"
    and tot1: "SetValue t1 6 (XStr ''Total'') \<in> set w1"
    and le1: "r + 4 \<le> t1"
    by simp_all
  define ts where "ts = total_rows df tax_rate keys (t1 + 3)"
  from Cons.IH [OF rest] obtain w2 where
    ws: "ws = (ws0 @ w1) @ w2"
    and rows2: "\<forall>x \<in> set w2. t1 + 3 + 1 \<le> write_row x"
    and hd2: "keys \<noteq> [] \<longrightarrow> SetValue (t1 + 3 + 1) 2 (XStr ''Details'') \<in> set w2"
    and len2: "length ts = length keys"
    and tot2: "\<forall>i < length keys. t1 + 3 + 4 \<le> ts ! i \<and>
              SetValue (ts ! i) 6 (XStr ''Total'') \<in> set w2"
    and gap2: "\<forall>i. i + 1 < length keys \<longrightarrow>
              (\<forall>x \<in> set w2. write_row x \<le> ts ! i \<or> ts ! i + 3 < write_row x) \<and>
              SetValue (ts ! i + 4) 2 (XStr ''Details'') \<in> set w2"
    unfolding ts_def by (elim exE conjE)
  have tr: "total_rows df tax_rate (k # keys) r = t1 # ts"
    using g by (simp add: k ts_def)
  have a: "ws = ws0 @ (w1 @ w2)"
    using ws by simp
  have b: "\<forall>x \<in> set (w1 @ w2). r + 1 \<le> write_row x"
    using rows1 rows2 le1 by fastforce
  have c: "SetValue (r + 1) 2 (XStr ''Details'') \<in> set (w1 @ w2)"
    using hd1 by simp
  have d: "length (total_rows df tax_rate (k # keys) r) = length (k # keys)"
    using len2 by (simp add: tr)
  have e: "\<forall>i < length (k # keys). r + 4 \<le> total_rows df tax_rate (k # keys) r ! i \<and>
              SetValue (total_rows df tax_rate (k # keys) r ! i) 6 (XStr ''Total'') \<in> set (w1 @ w2)"
  proof (intro allI impI)
    fix i assume i: "i < length (k # keys)"
    show "r + 4 \<le> total_rows df tax_rate (k # keys) r ! i \<and>
              SetValue (total_rows df tax_rate (k # keys) r ! i) 6 (XStr ''Total'') \<in> set (w1 @ w2)"
    proof (cases i)
      case 0
      then show ?thesis using le1 tot1 by (simp add: tr)
    next
      case (Suc j)
      then have "j < length keys" using i by simp
      from tot2 [rule_format, OF this] show ?thesis
        using le1 by (simp add: tr Suc)
    qed
  qed
  have f: "\<forall>i. i + 1 < length (k # keys) \<longrightarrow>
              (\<forall>x \<in> set (w1 @ w2). write_row x \<le> total_rows df tax_rate (k # keys) r ! i \<or>
                 total_rows df tax_rate (k # keys) r ! i + 3 < write_row x) \<and>
              SetValue (total_rows df tax_rate (k # keys) r ! i + 4) 2 (XStr ''Details'') \<in> set (w1 @ w2)"
  proof (intro allI impI)
    fix i assume i: "i + 1 < length (k # keys)"
    show "(\<forall>x \<in> set (w1 @ w2). write_row x \<le> total_rows df tax_rate (k # keys) r ! i \<or>
                 total_rows df tax_rate (k # keys) r ! i + 3 < write_row x) \<and>
              SetValue (total_rows df tax_rate (k # keys) r ! i + 4) 2 (XStr ''Details'') \<in> set (w1 @ w2)"
    proof (cases i)
      case 0
      have "keys \<noteq> []" using i 0 by auto
      with hd2 have "SetValue (t1 + 4) 2 (XStr ''Details'') \<in> set w2" by (simp add: add_ac)
      moreover have "\<forall>x \<in> set (w1 @ w2). write_row x \<le> t1 \<or> t1 + 3 < write_row x"
        using rows1 rows2 by fastforce
      ultimately show ?thesis by (simp add: tr 0)
    next
      case (Suc j)
      then have j: "j + 1 < length keys" and j': "j < length keys" using i by simp_all
      from gap2 [rule_format, OF j] have
        g2: "\<forall>x \<in> set w2. write_row x \<le> ts ! j \<or> ts ! j + 3 < write_row x"
        and h2: "SetValue (ts ! j + 4) 2 (XStr ''Details'') \<in> set w2"
        by simp_all
      have "t1 + 3 + 4 \<le> ts ! j"
        using tot2 [rule_format, OF j'] by simp
      then have "\<forall>x \<in> set w1. write_row x \<le> ts ! j"
        using rows1 by fastforce
      then show ?thesis
        using g2 h2 by (auto simp: tr Suc)
    qed
  qed
  show ?case
    using a b c d e f by (intro exI [of _ "w1 @ w2"]) simp
qed

text \<open>The value cells of a block.\<close>

lemma enumerate_0_eq: "enumerate 0 xs = map (\<lambda>i. (i, xs ! i)) [0 ..< length xs]"
  by (rule nth_equalityI) (simp_all add: nth_enumerate_eq)

lemma line_writes_value_iff:
  "SetValue row col v \<in> set (line_writes items suppliers r desc) \<longleftrightarrow>
   row = r \<and> (\<exists>j < length suppliers. col = 7 + j \<and>
     v = XLineFormula 5 r (lookup_price items (suppliers ! j) desc))"
  by (auto simp: line_writes_def Let_def enumerate_0_eq start_col_offset_def)

lemma item_writes_value_iff:
  "SetValue row col v \<in> set (item_writes items suppliers descriptions data_row) \<longleftrightarrow>
   (\<exists>i < length descriptions. row = data_row + i + 1 \<and>
      (col = 5 \<and> v = XInt 1 \<or> col = 6 \<and> v = XData (descriptions ! i) \<or>
       (\<exists>j < length suppliers. col = 7 + j \<and>
          v = XLineFormula 5 row (lookup_price items (suppliers ! j) (descriptions ! i)))))"
  by (auto simp: item_writes_def Let_def enumerate_0_eq start_col_offset_def
      start_row_offset_def line_writes_value_iff)

lemma identity_writes_value_cols:
  "SetValue row col v \<in> set (identity_writes data_row brand code power_type) \<Longrightarrow>
   col = 2 \<or> col = 3"
  by (auto simp: identity_writes_def start_col_offset_def)

lemma border_writes_no_value:
  "SetValue row col v \<notin> set (border_writes first_row last_row first_col last_col)"
  by (auto simp: border_writes_def)

lemma block_writes_item_value:
  assumes "SetValue row col v \<in> set (block_writes items tax_rate r brand code power_type)"
    and "r + 2 \<le> row" and "row \<le> r + 1 + length (unique (map row_description items))"
    and "5 \<le> col"
  shows "SetValue row col v \<in> set (item_writes items (unique (map row_supplier items))
           (unique (map row_description items)) (r + 1))"
proof -
  from assms(1) consider
      "SetValue row col v \<in> set (header_writes r (unique (map row_supplier items)))"
    | "SetValue row col v \<in> set (identity_writes (r + 1) brand code power_type)"
    | "SetValue row col v \<in> set (item_writes items (unique (map row_supplier items))
                (unique (map row_description items)) (r + 1))"
    | "SetValue row col v \<in> set (tax_writes (r + length (unique (map row_description items)) + extra_rows items + 2)
                tax_rate (length (unique (map row_supplier items))))"
    | "SetValue row col v \<in> set (total_writes (r + length (unique (map row_description items)) + extra_rows items + 2 + 1)
                (r + 2) (r + length (unique (map row_description items)) + extra_rows items + 2 - 1)
                (r + length (unique (map row_description items)) + extra_rows items + 2)
                (length (unique (map row_supplier items))))"
    | "SetValue row col v \<in> set (border_writes (r + 1)
                (r + length (unique (map row_description items)) + extra_rows items + 2 + 1) 2
                (6 + length (unique (map row_supplier items))))"
    by (auto simp: block_writes_def Let_def)
  then show ?thesis
  proof cases
    case 1
    then show ?thesis using header_writes_rows [OF 1] assms(2) by simp
  next
    case 2
    then show ?thesis using identity_writes_value_cols [OF 2] assms(4) by simp
  next
    case 3
    then show ?thesis .
  next
    case 4
    then show ?thesis using tax_writes_rows [OF 4] assms(3) by simp
  next
    case 5
    then show ?thesis using total_writes_rows [OF 5] assms(3) by simp
  next
    case 6
    then show ?thesis using border_writes_no_value by blast
  qed
qed

lemma item_writes_subset_block:
  "set (item_writes items (unique (map row_supplier items))
          (unique (map row_description items)) (r + 1))
   \<subseteq> set (block_writes items tax_rate r brand code power_type)"
  by (auto simp: block_writes_def Let_def)

text \<open>Reading a cell back: when all values written to a cell agree, the sheet holds
  that value.\<close>

lemma sheet_of_Some_mem:
  "sheet_of ws (r, c) = Some v \<Longrightarrow> SetValue r c v \<in> set ws"
  by (induction ws rule: sheet_of.induct) (auto split: option.splits if_splits)

lemma sheet_of_None_iff:
  "sheet_of ws (r, c) = None \<longleftrightarrow> (\<forall>v. SetValue r c v \<notin> set ws)"
  by (induction ws rule: sheet_of.induct) (auto split: option.splits if_splits)

lemma sheet_of_determined:
  assumes "SetValue r c v \<in> set ws" and "\<forall>v'. SetValue r c v' \<in> set ws \<longrightarrow> v' = v"
  shows "sheet_of ws (r, c) = Some v"
proof (cases "sheet_of ws (r, c)")
  case None
  then show ?thesis using assms(1) by (simp add: sheet_of_None_iff)
next
  case (Some v')
  then show ?thesis using sheet_of_Some_mem [OF Some] assms(2) by simp
qed

text \<open>The cells of the sheet in the rows of a block are the cells that block wrote.\<close>

lemma excel_groups_blocks:
  assumes "excel_groups df tax_rate keys r ws0 = Inr ws"
  shows "\<exists>w. ws = ws0 @ w \<and>
           length (start_rows df tax_rate keys r) = length keys \<and>
           (\<forall>g < length keys. \<exists>wg tg.
              excel_group df tax_rate (start_rows df tax_rate keys r ! g)
                (fst (keys ! g)) (snd (keys ! g)) = Inr (wg, tg) \<and>
              r \<le> start_rows df tax_rate keys r ! g \<and>
              set wg \<subseteq> set w \<and>
              (\<forall>x \<in> set w. start_rows df tax_rate keys r ! g + 1 \<le> write_row x \<and>
                 write_row x \<le> tg \<longrightarrow> x \<in> set wg))"
  using assms
proof (induction keys arbitrary: r ws0)
  case Nil
  then show ?case by simp
next
  case (Cons k keys)
  obtain c p where k: "k = (c, p)" by (cases k)
  from Cons.prems obtain w1 t1 where
    g: "excel_group df tax_rate r c p = Inr (w1, t1)"
    and rest: "excel_groups df tax_rate keys (t1 + 3) (ws0 @ w1) = Inr ws"
    by (auto simp: k split: sum.splits)
  from excel_group_props [OF g] have
    rows1: "\<forall>x \<in> set w1. r + 1 \<le> write_row x \<and> write_row x \<le> t1"
    and le1: "r + 4 \<le> t1"
    by simp_all
  from excel_groups_props [OF rest] obtain w2 where
    ws: "ws = (ws0 @ w1) @ w2"
    and rows2: "\<forall>x \<in> set w2. t1 + 3 + 1 \<le> write_row x"
    by (elim exE conjE)
  define ss where "ss = start_rows df tax_rate keys (t1 + 3)"
  from Cons.IH [OF rest] obtain w2' where
    ws': "ws = (ws0 @ w1) @ w2'"
    and len2: "length ss = length keys"
    and blk2: "\<forall>g < length keys. \<exists>wg tg.
              excel_group df tax_rate (ss ! g) (fst (keys ! g)) (snd (keys ! g)) = Inr (wg, tg) \<and>
              t1 + 3 \<le> ss ! g \<and>
              set wg \<subseteq> set w2' \<and>
              (\<forall>x \<in> set w2'. ss ! g + 1 \<le> write_row x \<and> write_row x \<le> tg \<longrightarrow> x \<in> set wg)"
    unfolding ss_def by (elim exE conjE)
  have w2': "w2' = w2"
    using ws ws' by simp
  have sr: "start_rows df tax_rate (k # keys) r = r # ss"
    using g by (simp add: k ss_def)
  have a: "ws = ws0 @ (w1 @ w2)"
    using ws by simp
  have b: "length (start_rows df tax_rate (k # keys) r) = length (k # keys)"
    using len2 by (simp add: sr)
  have c: "\<forall>g < length (k # keys). \<exists>wg tg.
              excel_group df tax_rate (start_rows df tax_rate (k # keys) r ! g)
                (fst ((k # keys) ! g)) (snd ((k # keys) ! g)) = Inr (wg, tg) \<and>
              r \<le> start_rows df tax_rate (k # keys) r ! g \<and>
              set wg \<subseteq> set (w1 @ w2) \<and>
              (\<forall>x \<in> set (w1 @ w2). start_rows df tax_rate (k # keys) r ! g + 1 \<le> write_row x \<and>
                 write_row x \<le> tg \<longrightarrow> x \<in> set wg)"
  proof (intro allI impI)
    fix i assume i: "i < length (k # keys)"
    show "\<exists>wg tg.
              excel_group df tax_rate (start_rows df tax_rate (k # keys) r ! i)
                (fst ((k # keys) ! i)) (snd ((k # keys) ! i)) = Inr (wg, tg) \<and>
              r \<le> start_rows df tax_rate (k # keys) r ! i \<and>
              set wg \<subseteq> set (w1 @ w2) \<and>
              (\<forall>x \<in> set (w1 @ w2). start_rows df tax_rate (k # keys) r ! i + 1 \<le> write_row x \<and>
                 write_row x \<le> tg \<longrightarrow> x \<in> set wg)"
    proof (cases i)
      case 0
      have "\<forall>x \<in> set (w1 @ w2). r + 1 \<le> write_row x \<and> write_row x \<le> t1 \<longrightarrow> x \<in> set w1"
        using rows2 by fastforce
      then show ?thesis
        using g by (intro exI [of _ w1] exI [of _ t1]) (simp add: sr 0 k)
    next
      case (Suc j)
      then have j: "j < length keys" using i by simp
      from blk2 [rule_format, OF j] obtain wg tg where
        eg: "excel_group df tax_rate (ss ! j) (fst (keys ! j)) (snd (keys ! j)) = Inr (wg, tg)"
        and ge: "t1 + 3 \<le> ss ! j"
        and sub: "set wg \<subseteq> set w2"
        and loc: "\<forall>x \<in> set w2. ss ! j + 1 \<le> write_row x \<and> write_row x \<le> tg \<longrightarrow> x \<in> set wg"
        unfolding w2' by (elim exE conjE)
      have "\<forall>x \<in> set w1. \<not> ss ! j + 1 \<le> write_row x"
        using rows1 ge by fastforce
      then have "\<forall>x \<in> set (w1 @ w2). ss ! j + 1 \<le> write_row x \<and> write_row x \<le> tg \<longrightarrow> x \<in> set wg"
        using loc by auto
      then show ?thesis
        using eg ge sub le1 by (intro exI [of _ wg] exI [of _ tg]) (auto simp: sr Suc)
    qed
  qed
  show ?case
    using a b c by (intro exI [of _ "w1 @ w2"]) simp
qed

text \<open>Whatever the dictionary, the markup of a finished supplier loop is one price cell
  per supplier.\<close>

lemma price_cells_html:
  "price_cells items d ss totals html = Inr (totals', html') \<Longrightarrow>
   html' = html @ price_row_markup items ss d"
proof (induction ss arbitrary: totals html)
  case Nil
  then show ?case by (simp add: price_row_markup_def)
next
  case (Cons s ss)
  show ?case
  proof (cases "map_of totals s")
    case None
    then show ?thesis
      using Cons.prems by (simp add: add_total_def)
  next
    case (Some v)
    from Cons.prems have "price_cells items d ss
        (AList.update s (v + lookup_price items s d) totals) (html @ price_cell items d s)
        = Inr (totals', html')"
      by (simp only: price_cells_step [OF Some])
    from Cons.IH [OF this] show ?thesis
      by (simp add: price_row_markup_Cons)
  qed
qed

text \<open>The loop over the groups raises exactly when some group has no item row.\<close>

lemma excel_groups_cases:
  "if \<forall>k \<in> set keys. \<exists>b. group_brand (items_for_code df (fst k) (snd k)) = Inr b
   then \<exists>ws. excel_groups df tax_rate keys r ws0 = Inr ws
   else excel_groups df tax_rate keys r ws0 = Inl IndexError"
proof (induction keys arbitrary: r ws0)
  case Nil
  show ?case by simp
next
  case (Cons k keys)
  obtain c p where k: "k = (c, p)" by (cases k)
  show ?case
  proof (cases "group_brand (items_for_code df c p)")
    case (Inl e)
    then show ?thesis
      by (auto simp: k excel_group_eq)
  next
    case (Inr b)
    then show ?thesis
      using Cons.IH by (simp add: k excel_group_eq)
  qed
qed

lemma generate_excel_file_cases:
  "if \<forall>k \<in> set (group_keys df). \<exists>b. group_brand (items_for_code df (fst k) (snd k)) = Inr b
   then \<exists>ws. generate_excel_file df tax_percent = Inr ws
   else generate_excel_file df tax_percent = Inl IndexError"
  using excel_groups_cases [of "group_keys df" df "tax_percent / 100" "Suc 0" "[]"]
  by (simp add: generate_excel_file_def Let_def)

text \<open>The blocks are stacked downwards in the order of the keys.\<close>

lemma start_rows_sorted:
  "sorted_wrt (<) (start_rows df tax_rate keys r) \<and>
   (\<forall>x \<in> set (start_rows df tax_rate keys r). r \<le> x)"
proof (induction keys arbitrary: r)
  case Nil
  show ?case by simp
next
  case (Cons k keys)
  obtain c p where k: "k = (c, p)" by (cases k)
  show ?case
  proof (cases "excel_group df tax_rate r c p")
    case (Inl e)
    then show ?thesis by (simp add: k)
  next
    case (Inr wt)
    obtain w t where wt: "wt = (w, t)" by (cases wt)
    have le: "r + 4 \<le> t"
      using excel_group_props [OF Inr [unfolded wt]] by simp
    have "\<forall>x \<in> set (start_rows df tax_rate keys (t + 3)). r < x \<and> r \<le> x"
      using Cons.IH [of "t + 3"] le by fastforce
    then show ?thesis
      using Cons.IH [of "t + 3"] Inr by (simp add: k wt)
  qed
qed

text \<open>Between the total row of a group and the header row of the next group lie three
  rows without a cell.\<close>

lemma excel_gap:
  assumes "generate_excel_file df tax_percent = Inr ws" and "i + 1 < length (group_keys df)"
  shows "length (total_rows df (tax_percent / 100) (group_keys df) 1) = length (group_keys df) \<and>
         SetValue (total_rows df (tax_percent / 100) (group_keys df) 1 ! i) 6 (XStr ''Total'') \<in> set ws \<and>
         blank_rows_after ws (total_rows df (tax_percent / 100) (group_keys df) 1 ! i) 3 \<and>
         SetValue (total_rows df (tax_percent / 100) (group_keys df) 1 ! i + 4) 2 (XStr ''Details'')
           \<in> set ws"
proof -
  define ts where "ts = total_rows df (tax_percent / 100) (group_keys df) 1"
  have "excel_groups df (tax_percent / 100) (group_keys df) 1 [] = Inr ws"
    using assms(1) by (simp add: generate_excel_file_def Let_def)
  from excel_groups_props [OF this] obtain w where
    w: "ws = [] @ w"
    and len: "length ts = length (group_keys df)"
    and tot: "\<forall>i < length (group_keys df). 1 + 4 \<le> ts ! i \<and>
              SetValue (ts ! i) 6 (XStr ''Total'') \<in> set w"
    and gap: "\<forall>i. i + 1 < length (group_keys df) \<longrightarrow>
              (\<forall>x \<in> set w. write_row x \<le> ts ! i \<or> ts ! i + 3 < write_row x) \<and>
              SetValue (ts ! i + 4) 2 (XStr ''Details'') \<in> set w"
    unfolding ts_def by (elim exE conjE)
  have ws: "w = ws" using w by simp
  have i: "i < length (group_keys df)" using assms(2) by simp
  have t: "SetValue (ts ! i) 6 (XStr ''Total'') \<in> set ws"
    using tot [rule_format, OF i] ws by simp
  have g: "\<forall>x \<in> set ws. write_row x \<le> ts ! i \<or> ts ! i + 3 < write_row x"
    and h: "SetValue (ts ! i + 4) 2 (XStr ''Details'') \<in> set ws"
    using gap [rule_format, OF assms(2)] ws by simp_all
  have "write_row (SetValue (ts ! i + 4) 2 (XStr ''Details'')) = ts ! i + 3 + 1"
    by simp
  then have "\<exists>x \<in> set ws. write_row x = ts ! i + 3 + 1"
    using h by blast
  then have b: "blank_rows_after ws (ts ! i) 3"
    using g by (simp add: blank_rows_after_def list_all_iff list_ex_iff)
  show ?thesis
    using len t b h unfolding ts_def by (intro conjI)
qed

lemma blank_rows_after_unique:
  "blank_rows_after ws t n \<Longrightarrow> blank_rows_after ws t m \<Longrightarrow> n = m"
proof (rule ccontr)
  assume n: "blank_rows_after ws t n" and m: "blank_rows_after ws t m" and ne: "n \<noteq> m"
  from n obtain x where x: "x \<in> set ws" "write_row x = t + n + 1"
    by (auto simp: blank_rows_after_def list_ex_iff)
  from m obtain y where y: "y \<in> set ws" "write_row y = t + m + 1"
    by (auto simp: blank_rows_after_def list_ex_iff)
  have "write_row x \<le> t \<or> t + m < write_row x"
    using m x(1) by (auto simp: blank_rows_after_def list_all_iff)
  moreover have "write_row y \<le> t \<or> t + n < write_row y"
    using n y(1) by (auto simp: blank_rows_after_def list_all_iff)
  ultimately show False
    using x(2) y(2) ne by auto
qed

lemma example_sheet_eq: "generate_excel_file example_table 12 = Inr example_sheet"
proof -
  have keys: "group_keys example_table = [(Some ''C1'', Some ''AC''), (Some ''C1'', Some ''DC'')]"
    by code_simp
  have b1: "group_brand (items_for_code example_table (Some ''C1'') (Some ''AC'')) = Inr (Some ''Acme'')"
    by code_simp
  have b2: "group_brand (items_for_code example_table (Some ''C1'') (Some ''DC'')) = Inr (Some ''Acme'')"
    by code_simp
  have "\<exists>ws. generate_excel_file example_table 12 = Inr ws"
    using generate_excel_file_cases [of example_table 12] by (simp add: keys b1 b2)
  then show ?thesis
    by (auto simp: example_sheet_def)
qed

lemma example_total_rows:
  "total_rows example_table (12 / 100) (group_keys example_table) 1 = [6, 14]"
  by code_simp

text \<open>The cells of an item row in the finished sheet: the quantity cell holds the number
  1 and the cell of a supplier holds the line formula with the price of the pair, so the
  formula evaluates to that price.\<close>

lemma sheet_item_cells:
  assumes gen: "generate_excel_file df tax_percent = Inr ws"
    and g: "g < length (group_keys df)"
    and i: "i < length (unique (map row_description
                (items_for_code df (fst (group_keys df ! g)) (snd (group_keys df ! g)))))"
    and j: "j < length (unique (map row_supplier
                (items_for_code df (fst (group_keys df ! g)) (snd (group_keys df ! g)))))"
  shows "let items = items_for_code df (fst (group_keys df ! g)) (snd (group_keys df ! g));
             row = start_rows df (tax_percent / 100) (group_keys df) 1 ! g + 2 + i;
             price = lookup_price items (unique (map row_supplier items) ! j)
                       (unique (map row_description items) ! i)
         in sheet_of ws (row, 5) = Some (XInt 1) \<and>
            sheet_of ws (row, 7 + j) = Some (XLineFormula 5 row price) \<and>
            eval_line_formula (sheet_of ws) (XLineFormula 5 row price) = Some price"
proof -
  define c where "c = fst (group_keys df ! g)"
  define p where "p = snd (group_keys df ! g)"
  define items where "items = items_for_code df c p"
  define sup where "sup = unique (map row_supplier items)"
  define descs where "descs = unique (map row_description items)"
  define s where "s = start_rows df (tax_percent / 100) (group_keys df) 1 ! g"
  define row where "row = s + 2 + i"
  define price where "price = lookup_price items (sup ! j) (descs ! i)"
  have i': "i < length descs" and j': "j < length sup"
    using i j by (simp_all add: descs_def sup_def items_def c_def p_def)
  have "excel_groups df (tax_percent / 100) (group_keys df) 1 [] = Inr ws"
    using gen by (simp add: generate_excel_file_def Let_def)
  from excel_groups_blocks [OF this] obtain w where
    w: "ws = [] @ w"
    and blk: "\<forall>g < length (group_keys df). \<exists>wg tg.
         excel_group df (tax_percent / 100) (start_rows df (tax_percent / 100) (group_keys df) 1 ! g)
           (fst (group_keys df ! g)) (snd (group_keys df ! g)) = Inr (wg, tg) \<and>
         1 \<le> start_rows df (tax_percent / 100) (group_keys df) 1 ! g \<and>
         set wg \<subseteq> set w \<and>
         (\<forall>x \<in> set w. start_rows df (tax_percent / 100) (group_keys df) 1 ! g + 1 \<le> write_row x \<and>
            write_row x \<le> tg \<longrightarrow> x \<in> set wg)"
    by (elim exE conjE)
  from blk [rule_format, OF g] obtain wg tg where
    eg: "excel_group df (tax_percent / 100) s c p = Inr (wg, tg)"
    and sub: "set wg \<subseteq> set ws"
    and loc: "\<forall>x \<in> set ws. s + 1 \<le> write_row x \<and> write_row x \<le> tg \<longrightarrow> x \<in> set wg"
    using w unfolding s_def c_def p_def by auto
  have "\<exists>brand. wg = block_writes items (tax_percent / 100) s brand c p \<and>
      tg = s + length descs + extra_rows items + 3"
    using eg by (cases "group_brand (items_for_code df c p)")
       (auto simp: excel_group_eq items_def descs_def)
  then obtain brand where
    wg: "wg = block_writes items (tax_percent / 100) s brand c p"
    and tg: "tg = s + length descs + extra_rows items + 3"
    by (elim exE conjE)
  have in_items: "\<And>col v. SetValue row col v \<in> set (item_writes items sup descs (s + 1)) \<Longrightarrow>
      SetValue row col v \<in> set ws"
    using item_writes_subset_block [of items s "tax_percent / 100" brand c p] sub
    unfolding wg sup_def descs_def by blast
  have from_sheet: "\<And>col v. 5 \<le> col \<Longrightarrow> SetValue row col v \<in> set ws \<Longrightarrow>
      SetValue row col v \<in> set (item_writes items sup descs (s + 1))"
  proof -
    fix col v assume col: "5 \<le> col" and m: "SetValue row col v \<in> set ws"
    have "s + 1 \<le> row \<and> row \<le> tg"
      using i' by (simp add: row_def tg)
    then have "SetValue row col v \<in> set wg"
      using loc m by fastforce
    then show "SetValue row col v \<in> set (item_writes items sup descs (s + 1))"
      unfolding wg sup_def descs_def
      using i' col by (intro block_writes_item_value) (simp_all add: row_def descs_def)
  qed
  have q: "sheet_of ws (row, 5) = Some (XInt 1)"
  proof (rule sheet_of_determined)
    show "SetValue row 5 (XInt 1) \<in> set ws"
      using i' by (intro in_items) (auto simp: item_writes_value_iff row_def intro!: exI [of _ i])
    show "\<forall>v'. SetValue row 5 v' \<in> set ws \<longrightarrow> v' = XInt 1"
    proof (intro allI impI)
      fix v' assume "SetValue row 5 v' \<in> set ws"
      then have "SetValue row 5 v' \<in> set (item_writes items sup descs (s + 1))"
        by (intro from_sheet) simp_all
      then show "v' = XInt 1"
        by (auto simp: item_writes_value_iff)
    qed
  qed
  have f: "sheet_of ws (row, 7 + j) = Some (XLineFormula 5 row price)"
  proof (rule sheet_of_determined)
    show "SetValue row (7 + j) (XLineFormula 5 row price) \<in> set ws"
      using i' j' by (intro in_items)
          (auto simp: item_writes_value_iff row_def price_def intro!: exI [of _ i])
    show "\<forall>v'. SetValue row (7 + j) v' \<in> set ws \<longrightarrow> v' = XLineFormula 5 row price"
    proof (intro allI impI)
      fix v' assume "SetValue row (7 + j) v' \<in> set ws"
      then have "SetValue row (7 + j) v' \<in> set (item_writes items sup descs (s + 1))"
        by (intro from_sheet) simp_all
      then show "v' = XLineFormula 5 row price"
        by (auto simp: item_writes_value_iff row_def price_def)
    qed
  qed
  have e: "eval_line_formula (sheet_of ws) (XLineFormula 5 row price) = Some price"
    using q by (simp add: eval_line_formula_def)
  show ?thesis
    using q f e
    unfolding Let_def row_def price_def s_def sup_def descs_def items_def c_def p_def
    by (intro conjI)
qed

lemma mill_sheet_eq: "generate_excel_file mill_table 12 = Inr mill_sheet"
proof -
  have keys: "group_keys mill_table = [(Some ''C1'', Some ''AC'')]"
    by code_simp
  have b: "group_brand (items_for_code mill_table (Some ''C1'') (Some ''AC'')) = Inr (Some ''Acme'')"
    by code_simp
  have "\<exists>ws. generate_excel_file mill_table 12 = Inr ws"
    using generate_excel_file_cases [of mill_table 12] by (simp add: keys b)
  then show ?thesis
    by (auto simp: mill_sheet_def)
qed

text \<open>When the workbook is generated the markup is rendered as well.\<close>

lemma generate_html_table_of_excel:
  assumes "generate_excel_file df tax_percent = Inr ws"
  shows "generate_html_table df tax_percent =
           Inr (html_head @ concat (map (group_markup df tax_percent) (group_keys df)) @ ''</div>'')"
proof -
  have "\<forall>k \<in> set (group_keys df). \<exists>b. group_brand (items_for_code df (fst k) (snd k)) = Inr b"
    using generate_excel_file_cases [of df tax_percent] assms by (auto split: if_splits)
  then show ?thesis
    by (simp add: generate_html_table_eq)
qed

section \<open>Rendered numbers\<close>

lemma digit_value_digit_char: "d < 10 \<Longrightarrow> digit_value (digit_char d) = d"
  by (simp add: digit_value_def digit_char_def)

lemma digits_nat_snoc: "digits_nat (ds @ [c]) = 10 * digits_nat ds + digit_value c"
  by (simp add: digits_nat_def)

lemma digits_nat_nat_digits: "digits_nat (nat_digits n) = n"
proof (induction n rule: nat_digits.induct)
  case (1 n)
  show ?case
  proof (cases "n < 10")
    case True
    then show ?thesis
      by (subst nat_digits.simps) (simp add: digits_nat_def digit_value_digit_char)
  next
    case False
    then show ?thesis
      using 1 by (subst nat_digits.simps) (simp add: digits_nat_snoc digit_value_digit_char)
  qed
qed

lemma of_char_digit_char: "d < 10 \<Longrightarrow> (of_char (digit_char d) :: nat) = 48 + d"
  by (simp add: digit_char_def)

lemma is_digit_not_special:
  assumes "is_digit c"
  shows "c \<noteq> CHR '','' \<and> c \<noteq> CHR ''.'' \<and> c \<noteq> CHR ''-''"
proof -
  from assms obtain d where d: "d < 10" and c: "c = digit_char d"
    by (auto simp: is_digit_def)
  have oc: "(of_char c :: nat) = 48 + d"
    using d c by (simp add: of_char_digit_char)
  show ?thesis
  proof (intro conjI notI)
    assume "c = CHR '',''"
    then have "(of_char c :: nat) = 44" by simp
    with oc show False by simp
  next
    assume "c = CHR ''.''"
    then have "(of_char c :: nat) = 46" by simp
    with oc show False by simp
  next
    assume "c = CHR ''-''"
    then have "(of_char c :: nat) = 45" by simp
    with oc show False by simp
  qed
qed

lemma nat_digits_is_digit: "c \<in> set (nat_digits n) \<Longrightarrow> is_digit c"
proof (induction n rule: nat_digits.induct)
  case (1 n)
  show ?case
  proof (cases "n < 10")
    case True
    then show ?thesis
      using "1.prems" by (subst (asm) nat_digits.simps) (simp add: is_digit_def)
  next
    case False
    then show ?thesis
      using 1 by (subst (asm) (2) nat_digits.simps) (auto simp: is_digit_def)
  qed
qed

lemma nat_digits_not_Nil: "nat_digits n \<noteq> []"
  by (subst nat_digits.simps) simp

lemma filter_commas_rev:
  "CHR '','' \<notin> set ds \<Longrightarrow> filter (\<lambda>c. c \<noteq> CHR '','') (commas_rev ds) = ds"
  by (induction ds rule: commas_rev.induct) auto

lemma filter_add_commas:
  "CHR '','' \<notin> set ds \<Longrightarrow> filter (\<lambda>c. c \<noteq> CHR '','') (add_commas ds) = ds"
  by (simp add: add_commas_def filter_commas_rev flip: rev_filter)

lemma set_commas_rev: "set (commas_rev ds) \<subseteq> insert CHR '','' (set ds)"
  by (induction ds rule: commas_rev.induct) auto

lemma hd_commas_rev: "ds \<noteq> [] \<Longrightarrow> commas_rev ds \<noteq> []"
  by (induction ds rule: commas_rev.induct) auto


lemma comma_notin_digits: "CHR '','' \<notin> set (nat_digits n)"
  using nat_digits_is_digit is_digit_not_special by blast

lemma point_notin_digits: "CHR ''.'' \<notin> set (nat_digits n)"
  using nat_digits_is_digit is_digit_not_special by blast

lemma minus_notin_add_commas: "CHR ''-'' \<notin> set (add_commas (nat_digits n))"
proof
  assume "CHR ''-'' \<in> set (add_commas (nat_digits n))"
  then have "CHR ''-'' \<in> insert CHR '','' (set (nat_digits n))"
    using set_commas_rev [of "rev (nat_digits n)"] by (auto simp: add_commas_def)
  then have "CHR ''-'' \<in> set (nat_digits n)"
    by simp
  then show False
    using nat_digits_is_digit is_digit_not_special by blast
qed

lemma add_commas_not_Nil: "add_commas (nat_digits n) \<noteq> []"
  by (simp add: add_commas_def hd_commas_rev nat_digits_not_Nil)

lemma two_digits_is_digit: "m < 100 \<Longrightarrow> c \<in> set (two_digits m) \<Longrightarrow> is_digit c"
  by (auto simp: two_digits_def is_digit_def)

lemma digits_nat_two_digits: "m < 100 \<Longrightarrow> digits_nat (two_digits m) = m"
  by (simp add: two_digits_def digits_nat_def digit_value_digit_char)

text \<open>The body of a rendering, after the sign.\<close>

lemma read_body:
  assumes "m < 100"
  shows "filter (\<lambda>c. c \<noteq> CHR '','') (add_commas (nat_digits n) @ ''.'' @ two_digits m) =
           nat_digits n @ ''.'' @ two_digits m"
    and "takeWhile (\<lambda>c. c \<noteq> CHR ''.'') (nat_digits n @ ''.'' @ two_digits m) = nat_digits n"
    and "tl (dropWhile (\<lambda>c. c \<noteq> CHR ''.'') (nat_digits n @ ''.'' @ two_digits m)) = two_digits m"
proof -
  have "filter (\<lambda>c. c \<noteq> CHR '','') (two_digits m) = two_digits m"
    using two_digits_is_digit [OF assms] is_digit_not_special by (auto simp: filter_id_conv)
  then show "filter (\<lambda>c. c \<noteq> CHR '','') (add_commas (nat_digits n) @ ''.'' @ two_digits m) =
           nat_digits n @ ''.'' @ two_digits m"
    by (simp add: filter_add_commas comma_notin_digits)
  have p: "\<And>c. c \<in> set (nat_digits n) \<Longrightarrow> c \<noteq> CHR ''.''"
    using point_notin_digits by blast
  show "takeWhile (\<lambda>c. c \<noteq> CHR ''.'') (nat_digits n @ ''.'' @ two_digits m) = nat_digits n"
    using p by (simp add: takeWhile_append2)
  show "tl (dropWhile (\<lambda>c. c \<noteq> CHR ''.'') (nat_digits n @ ''.'' @ two_digits m)) = two_digits m"
    using p by (simp add: dropWhile_append2)
qed

lemma cents_split: "(of_nat (c div 100) :: rat) + of_nat (c mod 100) / 100 = of_nat c / 100"
proof -
  have "(of_nat c :: rat) = of_nat (100 * (c div 100) + c mod 100)"
    by simp
  also have "\<dots> = 100 * of_nat (c div 100) + of_nat (c mod 100)"
    by (simp only: of_nat_add of_nat_mult of_nat_numeral)
  finally show ?thesis
    by (simp add: field_simps)
qed

text \<open>What is read from the rendering of \<open>x\<close> is \<open>shown_2f x\<close>.\<close>

lemma read_format_comma_2f: "read_2f (format_comma_2f x) = shown_2f x"
proof -
  define c where "c = cents_of x"
  define body where "body = add_commas (nat_digits (c div 100)) @ ''.'' @ two_digits (c mod 100)"
  have m: "c mod 100 < 100" by simp
  have bne: "body \<noteq> []" by (simp add: body_def)
  have hd_body: "hd body \<noteq> CHR ''-''"
  proof -
    have "hd body = hd (add_commas (nat_digits (c div 100)))"
      using add_commas_not_Nil by (simp add: body_def)
    also have "\<dots> \<in> set (add_commas (nat_digits (c div 100)))"
      using add_commas_not_Nil by simp
    finally show ?thesis
      using minus_notin_add_commas by metis
  qed
  have val: "(of_nat (digits_nat (takeWhile (\<lambda>c. c \<noteq> CHR ''.'') (filter (\<lambda>c. c \<noteq> CHR '','') body))) :: rat) +
      of_nat (digits_nat (tl (dropWhile (\<lambda>c. c \<noteq> CHR ''.'') (filter (\<lambda>c. c \<noteq> CHR '','') body)))) / 100
      = of_nat c / 100"
    unfolding body_def read_body [OF m]
    by (simp only: digits_nat_nat_digits digits_nat_two_digits [OF m] cents_split)
  show ?thesis
  proof (cases "x < 0")
    case True
    then have f: "format_comma_2f x = CHR ''-'' # body"
      by (simp add: format_comma_2f_def Let_def c_def body_def)
    show ?thesis
      using val True unfolding f by (simp add: read_2f_def Let_def shown_2f_def c_def)
  next
    case False
    then have f: "format_comma_2f x = body"
      by (simp add: format_comma_2f_def Let_def c_def body_def)
    show ?thesis
      using val False bne hd_body unfolding f by (simp add: read_2f_def Let_def shown_2f_def c_def)
  qed
qed

text \<open>A rendering shows the number itself exactly when the number is a whole number of
  hundredths.\<close>

lemma round_half_even_of_int: "round_half_even (of_int n) = n"
  by (simp add: round_half_even_def Let_def)

lemma shown_2f_eq_iff: "shown_2f x = x \<longleftrightarrow> (\<exists>n :: int. x * 100 = of_int n)"
proof
  assume "shown_2f x = x"
  then have "x * 100 = (if x < 0 then - 1 else 1) * of_nat (cents_of x)"
    by (simp add: shown_2f_def field_simps split: if_splits)
  then have "x * 100 = of_int ((if x < 0 then - 1 else 1) * int (cents_of x))"
    by (simp split: if_splits)
  then show "\<exists>n :: int. x * 100 = of_int n" ..
next
  assume "\<exists>n :: int. x * 100 = of_int n"
  then obtain n :: int where n: "x * 100 = of_int n" ..
  have "\<bar>x\<bar> * 100 = of_int \<bar>n\<bar>"
    using n by (simp add: abs_mult [symmetric, of x 100, simplified])
  then have "cents_of x = nat \<bar>n\<bar>"
    unfolding cents_of_def by (simp only: round_half_even_of_int)
  then have "(of_nat (cents_of x) :: rat) = \<bar>x\<bar> * 100"
    using \<open>\<bar>x\<bar> * 100 = of_int \<bar>n\<bar>\<close> by simp
  then show "shown_2f x = x"
    by (simp add: shown_2f_def)
qed

section \<open>The claims\<close>

text \<open>
  C3. The grouping keys are exactly the distinct (code, Power Type) pairs of the rows
  whose type is \<open>item\<close> and whose Power Type is neither missing nor empty. The group of a
  key \<open>(c, p)\<close> holds exactly the rows of the table whose code equals \<open>c\<close> (a missing code
  equals nothing), whose Power Type equals \<open>p\<close> or is blank, and whose type is \<open>item\<close> or
  \<open>subitem\<close>. Hence a row with a non-blank Power Type lies only in groups of its own
  Power Type, so rows with one code and different non-blank Power Types never share a
  group; and a row of type \<open>item\<close> or \<open>subitem\<close> with a blank Power Type lies in every
  group of its code.
\<close>

theorem grouping_key_scope:
  "set (group_keys df) =
     {(row_code r, row_power_type r) | r.
        r \<in> set df \<and> row_type r = Some ''item'' \<and>
        row_power_type r \<noteq> None \<and> row_power_type r \<noteq> Some ''''} \<and>
   distinct (group_keys df) \<and>
   set (items_for_code df c p) =
     {r \<in> set df. py_eq (row_code r) c \<and>
        (py_eq (row_power_type r) p \<or> row_power_type r = None \<or> row_power_type r = Some '''') \<and>
        (row_type r = Some ''item'' \<or> row_type r = Some ''subitem'')} \<and>
   (\<forall>r. r \<in> set (items_for_code df c p) \<and> row_power_type r \<noteq> None \<and>
        row_power_type r \<noteq> Some '''' \<longrightarrow> row_power_type r = p) \<and>
   (\<forall>r. r \<in> set df \<and> py_eq (row_code r) c \<and>
        (row_power_type r = None \<or> row_power_type r = Some '''') \<and>
        (row_type r = Some ''item'' \<or> row_type r = Some ''subitem'') \<longrightarrow>
        r \<in> set (items_for_code df c p))"
proof -
  have keys: "set (group_keys df) =
     {(row_code r, row_power_type r) | r.
        r \<in> set df \<and> row_type r = Some ''item'' \<and>
        row_power_type r \<noteq> None \<and> row_power_type r \<noteq> Some ''''}"
    by (auto simp: group_keys_def set_drop_duplicates main_items_iff image_iff)
  have dist: "distinct (group_keys df)"
    by (simp add: group_keys_def distinct_drop_duplicates)
  have grp: "set (items_for_code df c p) =
     {r \<in> set df. py_eq (row_code r) c \<and>
        (py_eq (row_power_type r) p \<or> row_power_type r = None \<or> row_power_type r = Some '''') \<and>
        (row_type r = Some ''item'' \<or> row_type r = Some ''subitem'')}"
    by (auto simp: items_for_code_iff py_eq_iff)
  show ?thesis
    using keys dist grp by (auto simp: py_eq_iff)
qed

theorem grouping_key_scope_witness:
  "group_keys example_table = [(Some ''C1'', Some ''AC''), (Some ''C1'', Some ''DC'')] \<and>
   quote_row ''item'' ''A'' ''Acme'' ''C1'' ''X'' ''AC'' 10
     \<in> set (items_for_code example_table (Some ''C1'') (Some ''AC'')) \<and>
   quote_row ''item'' ''A'' ''Acme'' ''C1'' ''X'' ''AC'' 10
     \<notin> set (items_for_code example_table (Some ''C1'') (Some ''DC'')) \<and>
   quote_row ''subitem'' ''A'' ''Acme'' ''C1'' ''Y'' '''' 20
     \<in> set (items_for_code example_table (Some ''C1'') (Some ''AC'')) \<and>
   quote_row ''subitem'' ''A'' ''Acme'' ''C1'' ''Y'' '''' 20
     \<in> set (items_for_code example_table (Some ''C1'') (Some ''DC''))"
proof -
  let ?item = "quote_row ''item'' ''A'' ''Acme'' ''C1'' ''X'' ''AC'' 10"
  let ?sub = "quote_row ''subitem'' ''A'' ''Acme'' ''C1'' ''Y'' '''' 20"
  have keys: "group_keys example_table = [(Some ''C1'', Some ''AC''), (Some ''C1'', Some ''DC'')]"
    by code_simp
  have in_ac: "?item \<in> set (items_for_code example_table (Some ''C1'') (Some ''AC''))"
    by code_simp
  have pt: "row_power_type ?item \<noteq> None \<and> row_power_type ?item \<noteq> Some '''' \<and>
      row_power_type ?item \<noteq> Some ''DC''"
    by (simp add: quote_row_def)
  have not_dc: "?item \<notin> set (items_for_code example_table (Some ''C1'') (Some ''DC''))"
    using grouping_key_scope [of example_table "Some ''C1''" "Some ''DC''"] pt by blast
  have sub: "?sub \<in> set example_table \<and> py_eq (row_code ?sub) (Some ''C1'') \<and>
      row_power_type ?sub = Some '''' \<and> row_type ?sub = Some ''subitem''"
    by (simp add: quote_row_def example_table_def py_eq_def)
  have sub_ac: "?sub \<in> set (items_for_code example_table (Some ''C1'') (Some ''AC''))"
    using grouping_key_scope [of example_table "Some ''C1''" "Some ''AC''"] sub by blast
  have sub_dc: "?sub \<in> set (items_for_code example_table (Some ''C1'') (Some ''DC''))"
    using grouping_key_scope [of example_table "Some ''C1''" "Some ''DC''"] sub by blast
  show ?thesis
    using keys in_ac not_dc sub_ac sub_dc by (intro conjI)
qed



text \<open>
  C2 (as amended). For every group and every (supplier, description) cell both renderers
  use the same price: in the sheet the quantity cell of the item row holds the number 1
  and the cell of the supplier holds the line formula with that price, so the formula
  evaluates to the price; in the markup the cell of the pair is the two-decimal rendering
  of that price, and what is read from the rendering is the price rounded to hundredths.
  The value of the formula equals the number the markup shows exactly when the price is a
  whole number of hundredths.
\<close>

theorem formula_and_markup_price:
  assumes "generate_excel_file df tax_percent = Inr ws"
    and "g < length (group_keys df)"
    and "i < length (unique (map row_description
                (items_for_code df (fst (group_keys df ! g)) (snd (group_keys df ! g)))))"
    and "j < length (unique (map row_supplier
                (items_for_code df (fst (group_keys df ! g)) (snd (group_keys df ! g)))))"
  shows "let items = items_for_code df (fst (group_keys df ! g)) (snd (group_keys df ! g));
             row = start_rows df (tax_percent / 100) (group_keys df) 1 ! g + 2 + i;
             price = lookup_price items (unique (map row_supplier items) ! j)
                       (unique (map row_description items) ! i)
         in sheet_of ws (row, 5) = Some (XInt 1) \<and>
            sheet_of ws (row, 7 + j) = Some (XLineFormula 5 row price) \<and>
            eval_line_formula (sheet_of ws) (XLineFormula 5 row price) = Some price \<and>
            generate_html_table df tax_percent =
              Inr (html_head @ concat (map (group_markup df tax_percent) (group_keys df)) @
                   ''</div>'') \<and>
            price_cell items (unique (map row_description items) ! i)
                (unique (map row_supplier items) ! j) =
              ''<td>$'' @ format_comma_2f price @ ''</td>'' \<and>
            read_2f (format_comma_2f price) = shown_2f price \<and>
            (shown_2f price = price \<longleftrightarrow> (\<exists>n :: int. price * 100 = of_int n))"
  using sheet_item_cells [OF assms] generate_html_table_of_excel [OF assms(1)]
  by (simp add: Let_def price_cell_def read_format_comma_2f shown_2f_eq_iff)

theorem formula_and_markup_price_witness:
  "generate_excel_file example_table 12 = Inr example_sheet \<and>
   sheet_of example_sheet (12, 5) = Some (XInt 1) \<and>
   sheet_of example_sheet (12, 7) = Some (XLineFormula 5 12 (25 / 2)) \<and>
   eval_line_formula (sheet_of example_sheet) (XLineFormula 5 12 (25 / 2)) = Some (25 / 2) \<and>
   price_cell (items_for_code example_table (Some ''C1'') (Some ''DC'')) (Some ''X'') (Some ''A'') =
     ''<td>$12.50</td>'' \<and>
   read_2f ''12.50'' = 25 / 2"
proof -
  define items where "items = items_for_code example_table (Some ''C1'') (Some ''DC'')"
  have keys: "group_keys example_table = [(Some ''C1'', Some ''AC''), (Some ''C1'', Some ''DC'')]"
    by code_simp
  have k: "fst (group_keys example_table ! 1) = Some ''C1''"
      "snd (group_keys example_table ! 1) = Some ''DC''"
    by (simp_all add: keys)
  have s: "unique (map row_supplier items) = [Some ''A'', Some ''B'']"
    unfolding items_def by code_simp
  have d: "unique (map row_description items) = [Some ''Y'', Some ''X'']"
    unfolding items_def by code_simp
  have sr: "start_rows example_table (12 / 100) (group_keys example_table) 1 = [1, 9]"
    by code_simp
  have p: "lookup_price items (Some ''A'') (Some ''X'') = 25 / 2"
    unfolding items_def by code_simp
  have f: "format_comma_2f (25 / 2) = ''12.50''"
    by code_simp
  have g: "1 < length (group_keys example_table)"
    by (simp add: keys)
  have i: "1 < length (unique (map row_description
      (items_for_code example_table (fst (group_keys example_table ! 1))
         (snd (group_keys example_table ! 1)))))"
    unfolding k using d by (simp add: items_def)
  have j: "0 < length (unique (map row_supplier
      (items_for_code example_table (fst (group_keys example_table ! 1))
         (snd (group_keys example_table ! 1)))))"
    unfolding k using s by (simp add: items_def)
  note inst = formula_and_markup_price [OF example_sheet_eq g i j,
      unfolded Let_def k sr, folded items_def, unfolded s d]
  have r: "[1, 9] ! 1 + 2 + 1 = (12 :: nat)" "[Some ''A'', Some ''B''] ! 0 = Some ''A''"
    "[Some ''Y'', Some ''X''] ! 1 = Some ''X''" "7 + 0 = (7 :: nat)"
    by simp_all
  note inst' = inst [unfolded r p f]
  have rd: "read_2f ''12.50'' = 25 / 2"
  proof -
    have "shown_2f (25 / 2) = 25 / 2"
      by code_simp
    then show ?thesis
      using inst' by simp
  qed
  show ?thesis
    using inst' example_sheet_eq rd unfolding items_def by simp
qed

theorem formula_vs_markup_counterexample:
  "generate_excel_file mill_table 12 = Inr mill_sheet \<and>
   sheet_of mill_sheet (3, 5) = Some (XInt 1) \<and>
   sheet_of mill_sheet (3, 7) = Some (XLineFormula 5 3 (10126 / 1000)) \<and>
   eval_line_formula (sheet_of mill_sheet) (XLineFormula 5 3 (10126 / 1000)) = Some (10126 / 1000) \<and>
   price_cells (items_for_code mill_table (Some ''C1'') (Some ''AC'')) (Some ''X'') [Some ''A'']
     [(Some ''A'', 0)] [] = Inr ([(Some ''A'', 10126 / 1000)], ''<td>$10.13</td>'') \<and>
   read_2f ''10.13'' = 1013 / 100 \<and>
   (10126 / 1000 :: rat) \<noteq> 1013 / 100"
proof -
  define items where "items = items_for_code mill_table (Some ''C1'') (Some ''AC'')"
  have keys: "group_keys mill_table = [(Some ''C1'', Some ''AC'')]"
    by code_simp
  have k: "fst (group_keys mill_table ! 0) = Some ''C1''"
      "snd (group_keys mill_table ! 0) = Some ''AC''"
    by (simp_all add: keys)
  have s: "unique (map row_supplier items) = [Some ''A'']"
    unfolding items_def by code_simp
  have d: "unique (map row_description items) = [Some ''X'']"
    unfolding items_def by code_simp
  have sr: "start_rows mill_table (12 / 100) (group_keys mill_table) 1 = [1]"
    by code_simp
  have p: "lookup_price items (Some ''A'') (Some ''X'') = 10126 / 1000"
    unfolding items_def by code_simp
  have g: "0 < length (group_keys mill_table)"
    by (simp add: keys)
  have i: "0 < length (unique (map row_description
      (items_for_code mill_table (fst (group_keys mill_table ! 0))
         (snd (group_keys mill_table ! 0)))))"
    unfolding k using d by (simp add: items_def)
  have j: "0 < length (unique (map row_supplier
      (items_for_code mill_table (fst (group_keys mill_table ! 0))
         (snd (group_keys mill_table ! 0)))))"
    unfolding k using s by (simp add: items_def)
  note inst = sheet_item_cells [OF mill_sheet_eq g i j,
      unfolded Let_def k sr, folded items_def, unfolded s d]
  have r: "[1] ! 0 + 2 + 0 = (3 :: nat)" "[Some ''A''] ! 0 = Some ''A''"
    "[Some ''X''] ! 0 = Some ''X''" "7 + 0 = (7 :: nat)"
    by simp_all
  note inst' = inst [unfolded r p]
  have pc: "price_cells (items_for_code mill_table (Some ''C1'') (Some ''AC'')) (Some ''X'') [Some ''A'']
     [(Some ''A'', 0)] [] = Inr ([(Some ''A'', 10126 / 1000)], ''<td>$10.13</td>'')"
    by code_simp
  have rd: "read_2f ''10.13'' = 1013 / 100"
    by code_simp
  have ne: "(10126 / 1000 :: rat) \<noteq> 1013 / 100"
    by simp
  show ?thesis
    using inst' mill_sheet_eq pc rd ne by simp
qed

text \<open>
  C4. The price of a (supplier, description) pair in a group is 0 when no row of the
  group has that supplier and that description, and otherwise the price of the first
  such row. Both renderers use this price: the markup shows it in the cell of the pair,
  and the workbook puts it into the line formula of the pair.
\<close>

theorem price_first_match:
  "((\<forall>r \<in> set items. \<not> (py_eq (row_supplier r) s \<and> py_eq (row_description r) d)) \<longrightarrow>
      lookup_price items s d = 0) \<and>
   (items = pre @ r # post \<and> py_eq (row_supplier r) s \<and> py_eq (row_description r) d \<and>
    (\<forall>x \<in> set pre. \<not> (py_eq (row_supplier x) s \<and> py_eq (row_description x) d)) \<longrightarrow>
      lookup_price items s d = row_price r) \<and>
   (price_cells items d ss totals html = Inr (totals', html') \<longrightarrow>
      html' = html @ concat (map (\<lambda>s. ''<td>$'' @ format_comma_2f (lookup_price items s d) @
                                       ''</td>'') ss)) \<and>
   (j < length suppliers \<longrightarrow>
      SetValue row (7 + j) (XLineFormula 5 row (lookup_price items (suppliers ! j) d))
        \<in> set (line_writes items suppliers row d))"
proof (intro conjI impI)
  assume "\<forall>r \<in> set items. \<not> (py_eq (row_supplier r) s \<and> py_eq (row_description r) d)"
  then have "filter (\<lambda>r. py_eq (row_supplier r) s \<and> py_eq (row_description r) d) items = []"
    by (simp add: filter_empty_conv)
  then show "lookup_price items s d = 0"
    by (simp add: lookup_price_def)
next
  assume a: "items = pre @ r # post \<and> py_eq (row_supplier r) s \<and> py_eq (row_description r) d \<and>
    (\<forall>x \<in> set pre. \<not> (py_eq (row_supplier x) s \<and> py_eq (row_description x) d))"
  then have "filter (\<lambda>r. py_eq (row_supplier r) s \<and> py_eq (row_description r) d) pre = []"
    by (simp add: filter_empty_conv)
  then have "filter (\<lambda>r. py_eq (row_supplier r) s \<and> py_eq (row_description r) d) items =
      r # filter (\<lambda>r. py_eq (row_supplier r) s \<and> py_eq (row_description r) d) post"
    using a by simp
  then show "lookup_price items s d = row_price r"
    by (simp add: lookup_price_def)
next
  assume "price_cells items d ss totals html = Inr (totals', html')"
  then have "html' = html @ price_row_markup items ss d"
    by (rule price_cells_html)
  then show "html' = html @ concat (map (\<lambda>s. ''<td>$'' @ format_comma_2f (lookup_price items s d) @
                                       ''</td>'') ss)"
    by (simp add: price_row_markup_def price_cell_def [abs_def])
next
  assume "j < length suppliers"
  then show "SetValue row (7 + j) (XLineFormula 5 row (lookup_price items (suppliers ! j) d))
        \<in> set (line_writes items suppliers row d)"
    by (auto simp: line_writes_value_iff)
qed

theorem price_first_match_witness:
  "lookup_price (items_for_code example_table (Some ''C1'') (Some ''DC'')) (Some ''B'') (Some ''X'') = 0 \<and>
   lookup_price duplicate_table (Some ''A'') (Some ''X'') = 10 \<and>
   price_cells duplicate_table (Some ''X'') [Some ''A''] [(Some ''A'', 0)] [] =
     Inr ([(Some ''A'', 10)], ''<td>$10.00</td>'') \<and>
   SetValue 3 7 (XLineFormula 5 3 10)
     \<in> set (line_writes duplicate_table [Some ''A''] 3 (Some ''X''))"
proof -
  have none: "\<forall>r \<in> set (items_for_code example_table (Some ''C1'') (Some ''DC'')).
      \<not> (py_eq (row_supplier r) (Some ''B'') \<and> py_eq (row_description r) (Some ''X''))"
    by code_simp
  have w1: "lookup_price (items_for_code example_table (Some ''C1'') (Some ''DC''))
      (Some ''B'') (Some ''X'') = 0"
    using price_first_match [of "items_for_code example_table (Some ''C1'') (Some ''DC'')"
        "Some ''B''" "Some ''X''"] none by blast
  let ?r = "quote_row ''item'' ''A'' ''Acme'' ''C1'' ''X'' ''AC'' 10"
  have dup: "duplicate_table = [] @ ?r # [quote_row ''item'' ''A'' ''Acme'' ''C1'' ''X'' ''AC'' 99] \<and>
      py_eq (row_supplier ?r) (Some ''A'') \<and> py_eq (row_description ?r) (Some ''X'') \<and>
      (\<forall>x \<in> set []. \<not> (py_eq (row_supplier x) (Some ''A'') \<and> py_eq (row_description x) (Some ''X'')))"
    by (simp add: duplicate_table_def quote_row_def py_eq_def)
  have "lookup_price duplicate_table (Some ''A'') (Some ''X'') = row_price ?r"
    using price_first_match [of duplicate_table "Some ''A''" "Some ''X''" "[]" ?r
        "[quote_row ''item'' ''A'' ''Acme'' ''C1'' ''X'' ''AC'' 99]"] dup by blast
  then have w2: "lookup_price duplicate_table (Some ''A'') (Some ''X'') = 10"
    by (simp add: quote_row_def)
  have w3: "price_cells duplicate_table (Some ''X'') [Some ''A''] [(Some ''A'', 0)] [] =
     Inr ([(Some ''A'', 10)], ''<td>$10.00</td>'')"
    by code_simp
  have "SetValue 3 (7 + 0)
      (XLineFormula 5 3 (lookup_price duplicate_table ([Some ''A''] ! 0) (Some ''X'')))
     \<in> set (line_writes duplicate_table [Some ''A''] 3 (Some ''X''))"
    using price_first_match [of duplicate_table _ "Some ''X''" _ _ _ _ _ _ _ _ 0 "[Some ''A'']" 3]
    by simp
  then have w4: "SetValue 3 7 (XLineFormula 5 3 10)
     \<in> set (line_writes duplicate_table [Some ''A''] 3 (Some ''X''))"
    by (simp add: w2)
  show ?thesis
    using w1 w2 w3 w4 by (intro conjI)
qed

text \<open>
  C5 (as amended). All groups are written to the one sheet, one block per key, stacked
  downwards. After the total row of every group but the last come exactly three rows
  without a cell, and the row after them is the header row of the next group: line 401
  sets \<open>current_row\<close> to \<open>total_row + 3\<close>, and the header row of a block is
  \<open>current_row + 1\<close>.
\<close>

theorem groups_gap_three_rows:
  assumes "generate_excel_file df tax_percent = Inr ws" and "i + 1 < length (group_keys df)"
  shows "length (total_rows df (tax_percent / 100) (group_keys df) 1) = length (group_keys df) \<and>
         SetValue (total_rows df (tax_percent / 100) (group_keys df) 1 ! i) 6 (XStr ''Total'') \<in> set ws \<and>
         blank_rows_after ws (total_rows df (tax_percent / 100) (group_keys df) 1 ! i) 3 \<and>
         SetValue (total_rows df (tax_percent / 100) (group_keys df) 1 ! i + 4) 2 (XStr ''Details'')
           \<in> set ws"
  using assms by (rule excel_gap)

theorem groups_gap_three_rows_witness:
  "generate_excel_file example_table 12 = Inr example_sheet \<and>
   total_rows example_table (12 / 100) (group_keys example_table) 1 = [6, 14] \<and>
   SetValue 6 6 (XStr ''Total'') \<in> set example_sheet \<and>
   blank_rows_after example_sheet 6 3 \<and>
   SetValue 10 2 (XStr ''Details'') \<in> set example_sheet"
proof -
  have keys: "group_keys example_table = [(Some ''C1'', Some ''AC''), (Some ''C1'', Some ''DC'')]"
    by code_simp
  have i: "0 + 1 < length (group_keys example_table)"
    by (simp add: keys)
  show ?thesis
    using groups_gap_three_rows [OF example_sheet_eq i, unfolded example_total_rows]
      example_sheet_eq example_total_rows
    by simp
qed

theorem gap_two_rows_counterexample:
  "generate_excel_file example_table 12 = Inr example_sheet \<and>
   total_rows example_table (12 / 100) (group_keys example_table) 1 = [6, 14] \<and>
   SetValue 6 6 (XStr ''Total'') \<in> set example_sheet \<and>
   \<not> blank_rows_after example_sheet 6 2 \<and>
   blank_rows_after example_sheet 6 3"
proof -
  have keys: "group_keys example_table = [(Some ''C1'', Some ''AC''), (Some ''C1'', Some ''DC'')]"
    by code_simp
  have i: "0 + 1 < length (group_keys example_table)"
    by (simp add: keys)
  have g: "SetValue 6 6 (XStr ''Total'') \<in> set example_sheet \<and> blank_rows_after example_sheet 6 3"
    using excel_gap [OF example_sheet_eq i, unfolded example_total_rows] by simp
  then have "\<not> blank_rows_after example_sheet 6 2"
    using blank_rows_after_unique [of example_sheet 6 3 2] by auto
  then show ?thesis
    using g example_sheet_eq example_total_rows by simp
qed

text \<open>
  C6. For a group without a row of type \<open>item\<close> the brand lookup raises (the IndexError
  of the positional read on an empty selection; this is the failure the specification
  names MissingBrandError), and so does the pass of either renderer over that group: no
  markup and no cell is produced with a blank brand. When the group belongs to a key of
  the table, the whole markup rendering and the whole workbook generation fail.
\<close>

theorem missing_brand_fails:
  assumes "\<forall>r \<in> set (items_for_code df c p). row_type r \<noteq> Some ''item''"
  shows "group_brand (items_for_code df c p) = Inl IndexError \<and>
         render_group df tax_percent tax_rate c p html = Inl IndexError \<and>
         excel_group df tax_rate current_row c p = Inl IndexError \<and>
         ((c, p) \<in> set (group_keys df) \<longrightarrow>
            generate_html_table df tax_percent = Inl IndexError \<and>
            generate_excel_file df tax_percent = Inl IndexError)"
proof -
  have b: "group_brand (items_for_code df c p) = Inl IndexError"
    using assms by (simp add: group_brand_Inl_iff)
  have r: "render_group df tax_percent tax_rate c p html = Inl IndexError"
    using b by (rule render_group_brand_Inl)
  have x: "excel_group df tax_rate current_row c p = Inl IndexError"
    using b by (simp add: excel_group_eq)
  have whole: "(c, p) \<in> set (group_keys df) \<longrightarrow>
            generate_html_table df tax_percent = Inl IndexError \<and>
            generate_excel_file df tax_percent = Inl IndexError"
  proof
    assume k: "(c, p) \<in> set (group_keys df)"
    have "\<not> (\<forall>k \<in> set (group_keys df).
        \<exists>b. group_brand (items_for_code df (fst k) (snd k)) = Inr b)"
      using k b by force
    then show "generate_html_table df tax_percent = Inl IndexError \<and>
            generate_excel_file df tax_percent = Inl IndexError"
      using generate_excel_file_cases [of df tax_percent]
      by (simp add: generate_html_table_eq)
  qed
  show ?thesis
    using b r x whole by (intro conjI)
qed

theorem missing_brand_fails_witness:
  "items_for_code nocode_table None (Some ''AC'') = [] \<and>
   group_brand (items_for_code nocode_table None (Some ''AC'')) = Inl IndexError \<and>
   render_group nocode_table 12 (12 / 100) None (Some ''AC'') html_head = Inl IndexError \<and>
   excel_group nocode_table (12 / 100) 1 None (Some ''AC'') = Inl IndexError \<and>
   generate_html_table nocode_table 12 = Inl IndexError \<and>
   generate_excel_file nocode_table 12 = Inl IndexError"
proof -
  have items: "items_for_code nocode_table None (Some ''AC'') = []"
    by code_simp
  have a: "\<forall>r \<in> set (items_for_code nocode_table None (Some ''AC'')). row_type r \<noteq> Some ''item''"
    by (simp add: items)
  have k: "(None, Some ''AC'') \<in> set (group_keys nocode_table)"
    by code_simp
  show ?thesis
    using missing_brand_fails [OF a, of 12 "12 / 100" html_head 1] items k by blast
qed

text \<open>
  C8. The keys of the groups stand in the order of their first occurrences among the
  (code, Power Type) pairs of the item rows with a non-blank Power Type, scanned in table
  order; the suppliers and the descriptions of a group stand in the order of their first
  occurrences among the rows of the group. Both renderers emit the groups in the order of
  the keys: the markup is the head followed by the tables of the keys in that order (each
  table with its supplier columns and description rows in the orders above), and the
  workbook holds one block per key, each starting below the one before.
\<close>

theorem first_occurrence_orders:
  "first_occurrence_order (map (\<lambda>r. (row_code r, row_power_type r)) (main_items df))
     (group_keys df) \<and>
   first_occurrence_order (map row_supplier (items_for_code df c p))
     (unique (map row_supplier (items_for_code df c p))) \<and>
   first_occurrence_order (map row_description (items_for_code df c p))
     (unique (map row_description (items_for_code df c p))) \<and>
   (generate_html_table df tax_percent = Inr html \<longrightarrow>
      html = html_head @ concat (map (group_markup df tax_percent) (group_keys df)) @ ''</div>'') \<and>
   (generate_excel_file df tax_percent = Inr ws \<longrightarrow>
      length (start_rows df (tax_percent / 100) (group_keys df) 1) = length (group_keys df) \<and>
      sorted_wrt (<) (start_rows df (tax_percent / 100) (group_keys df) 1) \<and>
      (\<forall>g < length (group_keys df). \<exists>wg tg.
         excel_group df (tax_percent / 100) (start_rows df (tax_percent / 100) (group_keys df) 1 ! g)
           (fst (group_keys df ! g)) (snd (group_keys df ! g)) = Inr (wg, tg) \<and>
         set wg \<subseteq> set ws))"
proof (intro conjI impI)
  show "first_occurrence_order (map (\<lambda>r. (row_code r, row_power_type r)) (main_items df))
     (group_keys df)"
    unfolding group_keys_def by (rule drop_duplicates_first_occurrence)
  show "first_occurrence_order (map row_supplier (items_for_code df c p))
     (unique (map row_supplier (items_for_code df c p)))"
    unfolding unique_def by (rule drop_duplicates_first_occurrence)
  show "first_occurrence_order (map row_description (items_for_code df c p))
     (unique (map row_description (items_for_code df c p)))"
    unfolding unique_def by (rule drop_duplicates_first_occurrence)
next
  assume "generate_html_table df tax_percent = Inr html"
  then show "html = html_head @ concat (map (group_markup df tax_percent) (group_keys df)) @ ''</div>''"
    by (simp add: generate_html_table_eq split: if_splits)
next
  assume a: "generate_excel_file df tax_percent = Inr ws"
  then have "excel_groups df (tax_percent / 100) (group_keys df) 1 [] = Inr ws"
    by (simp add: generate_excel_file_def Let_def)
  from excel_groups_blocks [OF this] obtain w where
    w: "ws = [] @ w"
    and len: "length (start_rows df (tax_percent / 100) (group_keys df) 1) = length (group_keys df)"
    and blk: "\<forall>g < length (group_keys df). \<exists>wg tg.
         excel_group df (tax_percent / 100) (start_rows df (tax_percent / 100) (group_keys df) 1 ! g)
           (fst (group_keys df ! g)) (snd (group_keys df ! g)) = Inr (wg, tg) \<and>
         1 \<le> start_rows df (tax_percent / 100) (group_keys df) 1 ! g \<and>
         set wg \<subseteq> set w \<and>
         (\<forall>x \<in> set w. start_rows df (tax_percent / 100) (group_keys df) 1 ! g + 1 \<le> write_row x \<and>
            write_row x \<le> tg \<longrightarrow> x \<in> set wg)"
    by (elim exE conjE)
  show "length (start_rows df (tax_percent / 100) (group_keys df) 1) = length (group_keys df)"
    by (rule len)
  show "sorted_wrt (<) (start_rows df (tax_percent / 100) (group_keys df) 1)"
    using start_rows_sorted by blast
  show "\<forall>g < length (group_keys df). \<exists>wg tg.
         excel_group df (tax_percent / 100) (start_rows df (tax_percent / 100) (group_keys df) 1 ! g)
           (fst (group_keys df ! g)) (snd (group_keys df ! g)) = Inr (wg, tg) \<and>
         set wg \<subseteq> set ws"
    using blk w by fastforce
qed

theorem first_occurrence_orders_witness:
  "group_keys example_table = [(Some ''C1'', Some ''AC''), (Some ''C1'', Some ''DC'')] \<and>
   first_occurrence_order
     [(Some ''C1'', Some ''AC''), (Some ''C1'', Some ''AC''), (Some ''C1'', Some ''DC'')]
     (group_keys example_table) \<and>
   unique (map row_description (items_for_code example_table (Some ''C1'') (Some ''DC''))) =
     [Some ''Y'', Some ''X''] \<and>
   generate_html_table example_table 12 =
     Inr (html_head @
          group_markup example_table 12 (Some ''C1'', Some ''AC'') @
          group_markup example_table 12 (Some ''C1'', Some ''DC'') @ ''</div>'') \<and>
   start_rows example_table (12 / 100) (group_keys example_table) 1 = [1, 9]"
proof -
  have keys: "group_keys example_table = [(Some ''C1'', Some ''AC''), (Some ''C1'', Some ''DC'')]"
    by code_simp
  have mi: "map (\<lambda>r. (row_code r, row_power_type r)) (main_items example_table) =
      [(Some ''C1'', Some ''AC''), (Some ''C1'', Some ''AC''), (Some ''C1'', Some ''DC'')]"
    by code_simp
  have descs: "unique (map row_description (items_for_code example_table (Some ''C1'') (Some ''DC''))) =
     [Some ''Y'', Some ''X'']"
    by code_simp
  have b1: "group_brand (items_for_code example_table (Some ''C1'') (Some ''AC'')) = Inr (Some ''Acme'')"
    by code_simp
  have b2: "group_brand (items_for_code example_table (Some ''C1'') (Some ''DC'')) = Inr (Some ''Acme'')"
    by code_simp
  have "\<exists>h. generate_html_table example_table 12 = Inr h"
    by (simp add: generate_html_table_eq keys b1 b2)
  then obtain h where h: "generate_html_table example_table 12 = Inr h" ..
  have sr: "start_rows example_table (12 / 100) (group_keys example_table) 1 = [1, 9]"
    by code_simp
  note inst = first_occurrence_orders [of example_table "Some ''C1''" "Some ''DC''" 12 h "[]"]
  have o: "first_occurrence_order
     [(Some ''C1'', Some ''AC''), (Some ''C1'', Some ''AC''), (Some ''C1'', Some ''DC'')]
     (group_keys example_table)"
    using inst [THEN conjunct1] unfolding mi .
  have "h = html_head @ concat (map (group_markup example_table 12) (group_keys example_table)) @ ''</div>''"
    using inst h by blast
  then have g: "generate_html_table example_table 12 =
     Inr (html_head @
          group_markup example_table 12 (Some ''C1'', Some ''AC'') @
          group_markup example_table 12 (Some ''C1'', Some ''DC'') @ ''</div>'')"
    using h by (simp add: keys)
  show ?thesis
    using keys o descs g sr by (intro conjI)
qed

text \<open>
  C9. When files are uploaded and their number is not 3, the warning is reported and no
  request is sent. A request is sent only when exactly 3 files are uploaded (and the
  button is pressed); it then carries the three named payloads. When nothing is uploaded
  there is neither a warning nor a request.
\<close>

theorem pdf_count_validation:
  "(pdfs \<noteq> [] \<and> length pdfs \<noteq> 3 \<longrightarrow>
      pdf_upload_handler url b64encode pdfs pressed = [Warning ''Please upload exactly 3 PDF files.'']) \<and>
   (length pdfs \<noteq> 3 \<longrightarrow>
      (\<forall>u f t. Post u f t \<notin> set (pdf_upload_handler url b64encode pdfs pressed))) \<and>
   (Post u f t \<in> set (pdf_upload_handler url b64encode pdfs pressed) \<longrightarrow>
      length pdfs = 3 \<and> pressed \<and> length f = 3) \<and>
   (length pdfs = 3 \<and> pressed \<longrightarrow>
      pdf_upload_handler url b64encode pdfs pressed =
        [Post url (map (\<lambda>p. (pdf_name p, b64encode (pdf_content p))) pdfs) 180]) \<and>
   (pdfs = [] \<longrightarrow> pdf_upload_handler url b64encode pdfs pressed = [])"
  by (auto simp: pdf_upload_handler_def Let_def)

theorem pdf_count_validation_witness:
  "pdf_upload_handler ''u'' id
     [\<lparr>pdf_name = ''a.pdf'', pdf_content = ''1''\<rparr>, \<lparr>pdf_name = ''b.pdf'', pdf_content = ''2''\<rparr>] True
     = [Warning ''Please upload exactly 3 PDF files.''] \<and>
   pdf_upload_handler ''u'' id
     [\<lparr>pdf_name = ''a.pdf'', pdf_content = ''1''\<rparr>, \<lparr>pdf_name = ''b.pdf'', pdf_content = ''2''\<rparr>,
      \<lparr>pdf_name = ''c.pdf'', pdf_content = ''3''\<rparr>, \<lparr>pdf_name = ''d.pdf'', pdf_content = ''4''\<rparr>] True
     = [Warning ''Please upload exactly 3 PDF files.''] \<and>
   pdf_upload_handler ''u'' id
     [\<lparr>pdf_name = ''a.pdf'', pdf_content = ''1''\<rparr>, \<lparr>pdf_name = ''b.pdf'', pdf_content = ''2''\<rparr>,
      \<lparr>pdf_name = ''c.pdf'', pdf_content = ''3''\<rparr>] True
     = [Post ''u'' [(''a.pdf'', ''1''), (''b.pdf'', ''2''), (''c.pdf'', ''3'')] 180] \<and>
   pdf_upload_handler ''u'' id [] True = []"
proof -
  let ?a = "\<lparr>pdf_name = ''a.pdf'', pdf_content = ''1''\<rparr>"
  let ?b = "\<lparr>pdf_name = ''b.pdf'', pdf_content = ''2''\<rparr>"
  let ?c = "\<lparr>pdf_name = ''c.pdf'', pdf_content = ''3''\<rparr>"
  let ?d = "\<lparr>pdf_name = ''d.pdf'', pdf_content = ''4''\<rparr>"
  have two: "[?a, ?b] \<noteq> [] \<and> length [?a, ?b] \<noteq> 3" by simp
  have four: "[?a, ?b, ?c, ?d] \<noteq> [] \<and> length [?a, ?b, ?c, ?d] \<noteq> 3" by simp
  have three: "length [?a, ?b, ?c] = 3 \<and> True" by simp
  have w2: "pdf_upload_handler ''u'' id [?a, ?b] True = [Warning ''Please upload exactly 3 PDF files.'']"
    using pdf_count_validation [of "[?a, ?b]" "''u''" id True] two by blast
  have w4: "pdf_upload_handler ''u'' id [?a, ?b, ?c, ?d] True = [Warning ''Please upload exactly 3 PDF files.'']"
    using pdf_count_validation [of "[?a, ?b, ?c, ?d]" "''u''" id True] four by blast
  have "pdf_upload_handler ''u'' id [?a, ?b, ?c] True =
      [Post ''u'' (map (\<lambda>p. (pdf_name p, id (pdf_content p))) [?a, ?b, ?c]) 180]"
    using pdf_count_validation [of "[?a, ?b, ?c]" "''u''" id True] three by blast
  then have w3: "pdf_upload_handler ''u'' id [?a, ?b, ?c] True =
      [Post ''u'' [(''a.pdf'', ''1''), (''b.pdf'', ''2''), (''c.pdf'', ''3'')] 180]"
    by simp
  have w0: "pdf_upload_handler ''u'' id [] True = []"
    using pdf_count_validation [of "[]" "''u''" id True] by blast
  show ?thesis
    using w2 w4 w3 w0 by (intro conjI)
qed




end
